theory Spec2Isabelle
  imports Main "HOL-Library.Sublist"
begin

section \<open>JavaScript strings and the regular expressions of the renderer\<close>

text \<open>
  A JavaScript string is a sequence of UTF-16 code units. The model takes the code units
  below 256 and writes them as \<^typ>\<open>char\<close>, so a string of the program is a
  \<^typ>\<open>string\<close>. In that range the line terminators of the regular expression
  grammar are line feed and carriage return, the white space of \<^verbatim>\<open>trim\<close> is
  tab, line feed, vertical tab, form feed, carriage return, space and no-break space, and
  \<^verbatim>\<open>\w\<close> is a letter, a digit or the underscore.
\<close>

definition is_line_terminator :: "char \<Rightarrow> bool" where
  "is_line_terminator c = (c = CHR 0x0A \<or> c = CHR 0x0D)"

definition is_white_space :: "char \<Rightarrow> bool" where
  "is_white_space c =
     (c = CHR 0x09 \<or> c = CHR 0x0A \<or> c = CHR 0x0B \<or> c = CHR 0x0C \<or> c = CHR 0x0D
      \<or> c = CHR 0x20 \<or> c = CHR 0xA0)"

definition is_word_char :: "char \<Rightarrow> bool" where
  "is_word_char c =
     (let n = (of_char c :: nat)
      in (48 \<le> n \<and> n \<le> 57) \<or> (65 \<le> n \<and> n \<le> 90) \<or> (97 \<le> n \<and> n \<le> 122) \<or> n = 95)"

text \<open>\<^verbatim>\<open>String.prototype.trim\<close>: white space is removed at both ends.\<close>

definition trim :: "string \<Rightarrow> string" where
  "trim s = rev (dropWhile is_white_space (rev (dropWhile is_white_space s)))"

text \<open>
  \<^verbatim>\<open>text.replace(/re/g, replacement)\<close>. The scan goes through the text from left to
  right. A matcher is asked at each position; it is given the code unit before the
  position (for the anchor \<^verbatim>\<open>^\<close>) and the text from the position on, and answers
  with the replacement text and the number of code units the match covers. After a match
  the scan goes on behind it (the code unit before the new position is the last one of
  the match); where there is none, the code unit is copied and the scan moves one
  position on. No expression of the renderer matches the empty string, so a
  match that covers nothing is read as no match.
\<close>

type_synonym matcher = "char option \<Rightarrow> string \<Rightarrow> (string \<times> nat) option"

function replace_global :: "matcher \<Rightarrow> char option \<Rightarrow> string \<Rightarrow> string" where
  "replace_global m prev [] = []"
| "replace_global m prev (c # cs) =
     (case m prev (c # cs) of
        None \<Rightarrow> c # replace_global m (Some c) cs
      | Some (r, n) \<Rightarrow>
          (if n = 0 then c # replace_global m (Some c) cs
           else r @ replace_global m (Some (last (take n (c # cs)))) (drop n (c # cs))))"
  by pat_completeness auto
termination
  by (relation "measure (\<lambda>(m, prev, s). length s)") auto

definition replace_all :: "matcher \<Rightarrow> string \<Rightarrow> string" where
  "replace_all m s = replace_global m None s"

text \<open>
  The three emphasis expressions and the inline code expression have one shape,
  \<^verbatim>\<open>/d([^d]+)d/\<close> for a delimiter \<^verbatim>\<open>d\<close>: the delimiter, the longest run of
  other code units, which must not be empty, and the delimiter again. Giving back a part
  of the run never helps, because the next code unit must be the delimiter. The match
  covers the run and the two delimiters; group 1 is the run.
\<close>

definition delimited :: "char \<Rightarrow> string \<Rightarrow> (string \<times> nat) option" where
  "delimited d s =
     (case s of
        [] \<Rightarrow> None
      | c # t \<Rightarrow>
          (if c \<noteq> d then None
           else let run = takeWhile (\<lambda>x. x \<noteq> d) t; rest = dropWhile (\<lambda>x. x \<noteq> d) t
                in if run = [] \<or> rest = [] then None else Some (run, length run + 2)))"

text \<open>
  Bold is \<^verbatim>\<open>/\*(\*?[^*]+\*?)\*/\<close>. After the opening star the group takes a second
  star when there is one (without it \<^verbatim>\<open>[^*]+\<close> could not start), then the longest
  run without a star, then one more star when two follow the run; the last star closes
  the match.
\<close>

definition bold_match :: "string \<Rightarrow> (string \<times> nat) option" where
  "bold_match s =
     (case s of
        [] \<Rightarrow> None
      | c # t \<Rightarrow>
          (if c \<noteq> CHR ''*'' then None
           else let pre = (case t of [] \<Rightarrow> [] | x # _ \<Rightarrow> if x = CHR ''*'' then [x] else []);
                    u = drop (length pre) t;
                    run = takeWhile (\<lambda>x. x \<noteq> CHR ''*'') u;
                    v = dropWhile (\<lambda>x. x \<noteq> CHR ''*'') u
                in if run = [] then None
                   else (case v of
                           [] \<Rightarrow> None
                         | _ # w \<Rightarrow>
                             (case w of
                                [] \<Rightarrow> Some (pre @ run, length pre + length run + 2)
                              | y # _ \<Rightarrow>
                                  if y = CHR ''*''
                                  then Some (pre @ run @ ''*'', length pre + length run + 3)
                                  else Some (pre @ run, length pre + length run + 2)))))"

definition bold_rule :: matcher where
  \<open>bold_rule prev s =
     map_option (\<lambda>(g, n). (''<strong class="bold-text">'' @ g @ ''</strong>'', n)) (bold_match s)\<close>

definition italic_rule :: matcher where
  \<open>italic_rule prev s =
     map_option (\<lambda>(g, n). (''<em class="italic-text">'' @ g @ ''</em>'', n))
       (delimited (CHR ''_'') s)\<close>

definition strike_rule :: matcher where
  \<open>strike_rule prev s =
     map_option (\<lambda>(g, n). (''<del class="strike-text">'' @ g @ ''</del>'', n))
       (delimited (CHR ''~'') s)\<close>

definition inline_code_rule :: matcher where
  \<open>inline_code_rule prev s =
     map_option (\<lambda>(g, n). (''<code class="inline-code">'' @ g @ ''</code>'', n))
       (delimited (CHR 0x60) s)\<close>

text \<open>
  \<^verbatim>\<open>escapeHtml\<close> assigns the text to \<^verbatim>\<open>textContent\<close> of a fresh element and
  reads \<^verbatim>\<open>innerHTML\<close> back. The serialisation of a text node replaces the
  ampersand, the no-break space and the two angle brackets, and nothing else.
\<close>

definition escape_unit :: "char \<Rightarrow> string" where
  "escape_unit c =
     (if c = CHR ''&'' then ''&amp;''
      else if c = CHR 0xA0 then ''&nbsp;''
      else if c = CHR ''<'' then ''&lt;''
      else if c = CHR ''>'' then ''&gt;''
      else [c])"

definition escapeHtml :: "string \<Rightarrow> string" where
  "escapeHtml text = concat (map escape_unit text)"

text \<open>
  The fenced block is \<^verbatim>\<open>/```(\w+)?\n([\s\S]*?)```/\<close>: three backticks, the longest
  run of word characters (group 1, undefined when the run is empty), a line feed, and the
  shortest text that is followed by three backticks (group 2). The replacement is
  computed by a function: the language is group 1 or \<^verbatim>\<open>text\<close>, the body is group 2,
  trimmed and escaped, and both are put into the template literal of the source, with its
  line feeds and its indentation.
\<close>

definition fence :: string where
  "fence = [CHR 0x60, CHR 0x60, CHR 0x60]"

fun until_fence :: "string \<Rightarrow> nat option" where
  "until_fence [] = None"
| "until_fence (c # t) =
     (if prefix fence (c # t) then Some 0 else map_option Suc (until_fence t))"

definition code_block_template :: "string \<Rightarrow> string \<Rightarrow> string" where
  \<open>code_block_template lang code =
     ''\<newline>                <div class="code-block">''
     @ ''\<newline>                    <div class="code-header">''
     @ ''\<newline>                        <span class="language-tag">'' @ lang @ ''</span>''
     @ ''\<newline>                        <button class="copy-btn" onclick="app.copyCode(this)">Copy</button>''
     @ ''\<newline>                    </div>''
     @ ''\<newline>                    <pre><code>'' @ escapeHtml (trim code) @ ''</code></pre>''
     @ ''\<newline>                </div>''
     @ ''\<newline>            ''\<close>

definition code_block_rule :: matcher where
  "code_block_rule prev s =
     (if \<not> prefix fence s then None
      else let t = drop 3 s;
               language = takeWhile is_word_char t;
               u = dropWhile is_word_char t
           in (case u of
                 [] \<Rightarrow> None
               | c # body \<Rightarrow>
                   (if c \<noteq> CHR 0x0A then None
                    else (case until_fence body of
                            None \<Rightarrow> None
                          | Some k \<Rightarrow>
                              Some (code_block_template
                                      (if language = [] then ''text'' else language)
                                      (take k body),
                                    3 + length language + 1 + k + 3)))))"

text \<open>
  Block quotes \<^verbatim>\<open>/^> (.*$)/gim\<close> and list lines \<^verbatim>\<open>/^- (.*$)/gim\<close>: with
  the flag \<^verbatim>\<open>m\<close> the anchor \<^verbatim>\<open>^\<close> holds at the start of the text and behind a
  line terminator, and \<^verbatim>\<open>$\<close> at the end of the text and before a line terminator.
  The dot matches every code unit but a line terminator, so the group is the rest of the
  line.
\<close>

definition at_line_start :: "char option \<Rightarrow> bool" where
  "at_line_start prev = (case prev of None \<Rightarrow> True | Some p \<Rightarrow> is_line_terminator p)"

definition line_match :: "string \<Rightarrow> char option \<Rightarrow> string \<Rightarrow> (string \<times> nat) option" where
  "line_match marker prev s =
     (if at_line_start prev \<and> prefix marker s
      then let g = takeWhile (\<lambda>x. \<not> is_line_terminator x) (drop (length marker) s)
           in Some (g, length marker + length g)
      else None)"

definition quote_rule :: matcher where
  \<open>quote_rule prev s =
     map_option (\<lambda>(g, n). (''<blockquote class="quote-block">'' @ g @ ''</blockquote>'', n))
       (line_match ''> '' prev s)\<close>

definition list_item_open :: string where
  \<open>list_item_open = ''<li class="list-item">''\<close>

definition list_rule :: matcher where
  "list_rule prev s =
     map_option (\<lambda>(g, n). (list_item_open @ g @ ''</li>'', n)) (line_match ''- '' prev s)"

text \<open>
  The list container is \<^verbatim>\<open>/(<li class="list-item">.*<\/li>)/g\<close>: the opening tag of
  an item, then as much of the line as still ends with a closing tag, which is the text
  up to the last closing tag of the line.
\<close>

fun last_index :: "string \<Rightarrow> string \<Rightarrow> nat option" where
  "last_index p [] = None"
| "last_index p (c # t) =
     (case last_index p t of
        Some k \<Rightarrow> Some (Suc k)
      | None \<Rightarrow> if prefix p (c # t) then Some 0 else None)"

definition list_container_rule :: matcher where
  \<open>list_container_rule prev s =
     (if \<not> prefix list_item_open s then None
      else let line = takeWhile (\<lambda>x. \<not> is_line_terminator x) (drop (length list_item_open) s)
           in (case last_index ''</li>'' line of
                 None \<Rightarrow> None
               | Some k \<Rightarrow>
                   let n = length list_item_open + k + 5
                   in Some (''<ul class="styled-list">'' @ take n s @ ''</ul>'', n)))\<close>

definition line_break_rule :: matcher where
  "line_break_rule prev s =
     (case s of [] \<Rightarrow> None | c # _ \<Rightarrow> if c = CHR 0x0A then Some (''<br>'', 1) else None)"

section \<open>The message renderer\<close>

text \<open>
  \<^verbatim>\<open>formatMessage\<close> (script.js, line 584): empty content gives the empty string; else
  the rules are applied one after the other, each to the whole output of the one before,
  in the order of the source: bold, italic, strikethrough, inline code, then fenced code
  blocks, block quotes, list items, list containers and line breaks.
\<close>

definition inline_rules :: "string \<Rightarrow> string" where
  "inline_rules content =
     replace_all inline_code_rule
       (replace_all strike_rule (replace_all italic_rule (replace_all bold_rule content)))"

definition block_rules :: "string \<Rightarrow> string" where
  "block_rules formatted =
     replace_all line_break_rule
       (replace_all list_container_rule
          (replace_all list_rule (replace_all quote_rule formatted)))"

definition formatMessage :: "string \<Rightarrow> string" where
  "formatMessage content =
     (if content = [] then []
      else block_rules (replace_all code_block_rule (inline_rules content)))"

section \<open>The conversation store\<close>

text \<open>
  A message and a conversation are the object literals of \<^verbatim>\<open>addMessage\<close>,
  \<^verbatim>\<open>addImageMessage\<close> and \<^verbatim>\<open>createNewChat\<close>. Roles, types and modes are the
  strings of the source. \<^verbatim>\<open>createdAt\<close> is an ISO time stamp in the source, read again
  only through \<^verbatim>\<open>new Date(...)\<close>; the model keeps the instant it denotes, in
  milliseconds.
\<close>

record message =
  role :: string
  content :: string
  type :: string
  caption :: "string option"

record chat =
  chat_id :: string
  title :: string
  messages :: "message list"
  mode :: string
  createdAt :: nat

text \<open>
  \<^verbatim>\<open>localStorage\<close> holds three items. The item \<^verbatim>\<open>ai_chats\<close> is a string; the
  model writes \<open>Serialized cs\<close> for the JSON text of the array \<open>cs\<close> of conversations,
  which is what \<^verbatim>\<open>JSON.stringify\<close> produces and what \<^verbatim>\<open>JSON.parse\<close> reads
  back as \<open>cs\<close>, and \<open>Malformed t\<close> for any other string \<open>t\<close>: the empty string, or
  a string on which the \<^verbatim>\<open>try\<close> block of \<^verbatim>\<open>loadChats\<close> throws (no JSON text, or
  the text of a value that is not an array). A missing item is \<open>None\<close>. The text of
  an array whose elements are not conversation objects has no counterpart in the model.
\<close>

datatype chats_item = Malformed string | Serialized "chat list"

record storage =
  ai_chats :: "chats_item option"
  current_chat_id :: "string option"
  user_api_key :: "string option"

datatype error = TypeError string | SyntaxError string | Error string

fun error_message :: "error \<Rightarrow> string" where
  "error_message (TypeError m) = m"
| "error_message (SyntaxError m) = m"
| "error_message (Error m) = m"

text \<open>
  The fields of the controller that the store, the presenter and the orchestrator read or
  write. \<^verbatim>\<open>chats\<close> is a \<^verbatim>\<open>Map\<close>: its entries in insertion order.
  \<open>apiKeyModalOpen\<close> is the display state of the key dialog, which
  \<^verbatim>\<open>openApiKeyModal\<close> shows. The other effects on the page are not part of the model.
\<close>

record app =
  currentChatId :: "string option"
  chats :: "(string \<times> chat) list"
  isGenerating :: bool
  currentMode :: string
  jsonMode :: bool
  userApiKey :: "string option"
  localStorage :: storage
  apiKeyModalOpen :: bool

text \<open>
  \<^verbatim>\<open>Map.prototype.get\<close>, \<^verbatim>\<open>has\<close> and \<^verbatim>\<open>set\<close>: \<^verbatim>\<open>set\<close> replaces the value
  of a key that is present, where it stands, and adds a new key at the end.
\<close>

definition Map_get :: "('k \<times> 'v) list \<Rightarrow> 'k \<Rightarrow> 'v option" where
  "Map_get m k = map_of m k"

definition Map_has :: "('k \<times> 'v) list \<Rightarrow> 'k \<Rightarrow> bool" where
  "Map_has m k = (map_of m k \<noteq> None)"

fun Map_set :: "('k \<times> 'v) list \<Rightarrow> 'k \<Rightarrow> 'v \<Rightarrow> ('k \<times> 'v) list" where
  "Map_set [] k v = [(k, v)]"
| "Map_set ((k', v') # m) k v = (if k' = k then (k, v) # m else (k', v') # Map_set m k v)"

definition Map_new :: "('k \<times> 'v) list \<Rightarrow> ('k \<times> 'v) list" where
  "Map_new entries = foldl (\<lambda>m (k, v). Map_set m k v) [] entries"

text \<open>A string is falsy when it is \<^verbatim>\<open>null\<close> or empty.\<close>

definition truthy :: "string option \<Rightarrow> bool" where
  "truthy v = (case v of None \<Rightarrow> False | Some t \<Rightarrow> t \<noteq> [])"

text \<open>The decimal digits of a number, as string concatenation prints it.\<close>

function decimal :: "nat \<Rightarrow> string" where
  "decimal n =
     (if n < 10 then [''0123456789'' ! n]
      else decimal (n div 10) @ [''0123456789'' ! (n mod 10)])"
  by pat_completeness auto
termination
  by (relation "measure id") auto

declare decimal.simps [simp del]

text \<open>
  \<^verbatim>\<open>saveChats\<close> (line 241) writes the whole array of conversations and the active
  identifier; \<^verbatim>\<open>setItem\<close> turns \<^verbatim>\<open>null\<close> into the string \<^verbatim>\<open>null\<close>.
\<close>

definition saveChats :: "app \<Rightarrow> app" where
  "saveChats s =
     s\<lparr>localStorage := (localStorage s)
          \<lparr>ai_chats := Some (Serialized (map snd (chats s))),
           current_chat_id :=
             Some (case currentChatId s of None \<Rightarrow> ''null'' | Some k \<Rightarrow> k)\<rparr>\<rparr>"

text \<open>
  \<^verbatim>\<open>createNewChat\<close> (line 199). \<open>now\<close> is the reading of \<^verbatim>\<open>Date.now()\<close> and
  \<open>created\<close> the instant of \<^verbatim>\<open>new Date()\<close>.
\<close>

definition createNewChat :: "app \<Rightarrow> nat \<Rightarrow> nat \<Rightarrow> app" where
  "createNewChat s now created =
     (let chatId = ''chat_'' @ decimal now;
          chat = \<lparr>chat_id = chatId, title = ''New Chat'', messages = [],
                  mode = currentMode s, createdAt = created\<rparr>
      in saveChats (s\<lparr>chats := Map_set (chats s) chatId chat, currentChatId := Some chatId\<rparr>))"

text \<open>
  \<^verbatim>\<open>loadChats\<close> (line 218). The \<^verbatim>\<open>try\<close> block parses the item and builds the map
  from the pairs of identifier and conversation; whatever it throws is caught and leaves
  an empty map.
\<close>

definition parse_saved :: "chats_item \<Rightarrow> error + (string \<times> chat) list" where
  "parse_saved item =
     (case item of
        Malformed t \<Rightarrow> Inl (SyntaxError t)
      | Serialized chatsArray \<Rightarrow> Inr (Map_new (map (\<lambda>c. (chat_id c, c)) chatsArray)))"

definition loadChats :: "app \<Rightarrow> nat \<Rightarrow> nat \<Rightarrow> error option \<times> app" where
  "loadChats s now created =
     (let savedChats = ai_chats (localStorage s);
          savedCurrentChat = current_chat_id (localStorage s);
          s1 = (case savedChats of
                  None \<Rightarrow> s
                | Some item \<Rightarrow>
                    if item = Malformed [] then s
                    else (case parse_saved item of
                            Inr m \<Rightarrow> s\<lparr>chats := m\<rparr>
                          | Inl e \<Rightarrow> s\<lparr>chats := []\<rparr>))
      in if (case savedCurrentChat of
               None \<Rightarrow> False
             | Some k \<Rightarrow> truthy savedCurrentChat \<and> Map_has (chats s1) k)
         then (None, s1\<lparr>currentChatId := savedCurrentChat\<rparr>)
         else if chats s1 \<noteq> []
         then (None, s1\<lparr>currentChatId := Some (fst (hd (chats s1)))\<rparr>)
         else (None, createNewChat s1 now created))"

text \<open>
  The constructor (line 2) and the part of \<^verbatim>\<open>initializeApp\<close> that touches the store:
  \<^verbatim>\<open>loadUserSettings\<close> and \<^verbatim>\<open>loadChats\<close>.
\<close>

definition constructor :: "storage \<Rightarrow> app" where
  "constructor ls =
     \<lparr>currentChatId = None, chats = [], isGenerating = False, currentMode = ''chat'',
      jsonMode = False, userApiKey = None, localStorage = ls, apiKeyModalOpen = False\<rparr>"

definition loadUserSettings :: "app \<Rightarrow> app" where
  "loadUserSettings s = s\<lparr>userApiKey := user_api_key (localStorage s)\<rparr>"

definition initializeApp :: "storage \<Rightarrow> nat \<Rightarrow> nat \<Rightarrow> error option \<times> app" where
  "initializeApp ls now created = loadChats (loadUserSettings (constructor ls)) now created"

text \<open>
  The list of conversations that \<^verbatim>\<open>updateChatHistory\<close> (line 247) shows: the values
  of the map, sorted by creation time, latest first. The sort of the source is stable.
\<close>

definition chat_list :: "app \<Rightarrow> chat list" where
  "chat_list s = sort_key (\<lambda>c. - int (createdAt c)) (map snd (chats s))"

text \<open>The conversation the active identifier names; \<^verbatim>\<open>undefined\<close> is \<open>None\<close>.\<close>

definition currentChat :: "app \<Rightarrow> chat option" where
  "currentChat s = (case currentChatId s of None \<Rightarrow> None | Some k \<Rightarrow> Map_get (chats s) k)"

text \<open>
  The source changes the conversation object that the map holds; the model writes the
  changed conversation back under the active identifier.
\<close>

definition put_current :: "app \<Rightarrow> chat \<Rightarrow> app" where
  "put_current s c =
     (case currentChatId s of None \<Rightarrow> s | Some k \<Rightarrow> s\<lparr>chats := Map_set (chats s) k c\<rparr>)"

text \<open>
  \<^verbatim>\<open>addMessage\<close> (line 520) and \<^verbatim>\<open>addImageMessage\<close> (line 563) push onto the
  messages of the active conversation and save. Reading \<^verbatim>\<open>messages\<close> of
  \<^verbatim>\<open>undefined\<close> throws a TypeError.
\<close>

definition addMessage :: "app \<Rightarrow> string \<Rightarrow> string \<Rightarrow> string \<Rightarrow> error option \<times> app" where
  "addMessage s r c t =
     (case currentChat s of
        None \<Rightarrow> (Some (TypeError ''Cannot read properties of undefined''), s)
      | Some chat \<Rightarrow>
          (None, saveChats (put_current s
             (chat\<lparr>messages := messages chat
                      @ [\<lparr>role = r, content = c, type = t, caption = None\<rparr>]\<rparr>))))"

definition addImageMessage :: "app \<Rightarrow> string \<Rightarrow> string \<Rightarrow> string \<Rightarrow> error option \<times> app" where
  "addImageMessage s imageUrl cap r =
     (case currentChat s of
        None \<Rightarrow> (Some (TypeError ''Cannot read properties of undefined''), s)
      | Some chat \<Rightarrow>
          (None, saveChats (put_current s
             (chat\<lparr>messages := messages chat
                      @ [\<lparr>role = r, content = imageUrl, type = ''image'',
                          caption = Some cap\<rparr>]\<rparr>))))"

text \<open>\<^verbatim>\<open>truncateText\<close> (line 962).\<close>

definition truncateText :: "string \<Rightarrow> nat \<Rightarrow> string" where
  "truncateText text maxLength =
     (if length text > maxLength then take maxLength text @ ''...'' else text)"

text \<open>\<^verbatim>\<open>updateChatTitleFromFirstMessage\<close> (line 888).\<close>

definition updateChatTitleFromFirstMessage :: "app \<Rightarrow> string \<Rightarrow> error option \<times> app" where
  "updateChatTitleFromFirstMessage s firstMessage =
     (case currentChat s of
        None \<Rightarrow> (Some (TypeError ''Cannot read properties of undefined''), s)
      | Some chat \<Rightarrow>
          if length (messages chat) = 2 \<and> title chat = ''New Chat''
          then (None, saveChats (put_current s (chat\<lparr>title := truncateText firstMessage 25\<rparr>)))
          else (None, s))"

text \<open>\<^verbatim>\<open>clearCurrentChat\<close> (line 919).\<close>

definition clearCurrentChat :: "app \<Rightarrow> app" where
  "clearCurrentChat s =
     (case currentChat s of
        None \<Rightarrow> s
      | Some chat \<Rightarrow> saveChats (put_current s (chat\<lparr>messages := []\<rparr>)))"

text \<open>
  \<^verbatim>\<open>switchChat\<close> (line 271) stores the identifier and saves first; the title of the
  conversation is read afterwards, and reading it from \<^verbatim>\<open>undefined\<close> throws.
\<close>

definition switchChat :: "app \<Rightarrow> string \<Rightarrow> error option \<times> app" where
  "switchChat s chatId =
     (let s1 = saveChats (s\<lparr>currentChatId := Some chatId\<rparr>)
      in case Map_get (chats s1) chatId of
           None \<Rightarrow> (Some (TypeError ''Cannot read properties of undefined''), s1)
         | Some chat \<Rightarrow> (None, s1))"

section \<open>The typing presenter\<close>

text \<open>
  \<^verbatim>\<open>typeMessage\<close> (line 724). The loop reads \<^verbatim>\<open>this.isGenerating\<close> before each
  code unit and stops when it is false; \<open>flag i\<close> is the value read before code unit
  \<open>i\<close>. Each turn waits (\<^verbatim>\<open>await this.delay\<close>), and other handlers may change the
  flag in between, so every reading but the first is an input of the model; the first
  one is made without a wait, from the state at the call. \<open>text\<close> is the parameter
  \<^verbatim>\<open>content\<close> of the source, and \<open>displayedContent\<close> is what
  the page shows when the loop ends. After the loop the whole text is shown and
  \<^verbatim>\<open>addMessage\<close> stores it.
\<close>

function typeLoop :: "(nat \<Rightarrow> bool) \<Rightarrow> string \<Rightarrow> nat \<Rightarrow> string \<Rightarrow> string" where
  "typeLoop flag text i displayedContent =
     (if i < length text
      then (if \<not> flag i then displayedContent
            else typeLoop flag text (Suc i) (displayedContent @ [text ! i]))
      else displayedContent)"
  by pat_completeness auto
termination
  by (relation "measure (\<lambda>(flag, text, i, d). length text - i)") auto

declare typeLoop.simps [simp del]

record typed =
  raised :: "error option"
  displayed :: string
  after :: app

definition typeMessage :: "app \<Rightarrow> (nat \<Rightarrow> bool) \<Rightarrow> string \<Rightarrow> string \<Rightarrow> string \<Rightarrow> typed" where
  "typeMessage s later text r t =
     (if t = ''image''
      then (case addImageMessage s text ''Generated Image'' r of
              (e, s') \<Rightarrow> \<lparr>raised = e, displayed = [], after = s'\<rparr>)
      else let flag = (\<lambda>i. if i = 0 then isGenerating s else later i);
               displayedContent = typeLoop flag text 0 []
           in (case addMessage s r text t of
                 (e, s') \<Rightarrow> \<lparr>raised = e, displayed = displayedContent, after = s'\<rparr>))"

section \<open>The request orchestrator\<close>

text \<open>
  The outcome of \<^verbatim>\<open>fetch('/api/chat')\<close>: the promise is rejected, or there is a
  response with a status, a status text and a body. \<^verbatim>\<open>response.json()\<close> throws on a
  body that is not JSON; a JSON body is the object with the fields \<^verbatim>\<open>success\<close>,
  \<^verbatim>\<open>content\<close> and \<^verbatim>\<open>error\<close> that the server of this repository sends.
  \<^verbatim>\<open>response.ok\<close> is true for a status from 200 to 299.
\<close>

record reply =
  success :: bool
  reply_content :: string
  reply_error :: "string option"

datatype body = NotJson string | Json reply

record response =
  status :: nat
  statusText :: string
  response_body :: body

datatype fetched = Rejected string | Responded response

definition ok :: "response \<Rightarrow> bool" where
  "ok r = (200 \<le> status r \<and> status r \<le> 299)"

text \<open>\<^verbatim>\<open>data.error || fallback\<close>: the error text when there is one and it is not empty.\<close>

definition or_else :: "string option \<Rightarrow> string \<Rightarrow> string" where
  "or_else v fallback =
     (case v of None \<Rightarrow> fallback | Some t \<Rightarrow> if truthy v then t else fallback)"

text \<open>
  \<^verbatim>\<open>generateAIResponse\<close> (line 469). The request is built from the messages of the
  active conversation; the model keeps what the function does with the outcome. On a
  status 401 the key is forgotten, in the controller and in \<^verbatim>\<open>localStorage\<close>, the key
  dialog is opened and an error is thrown; the \<^verbatim>\<open>catch\<close> of the function throws
  every error again.
\<close>

definition generateAIResponse :: "app \<Rightarrow> fetched \<Rightarrow> (error + string) \<times> app" where
  "generateAIResponse s f =
     (case currentChat s of
        None \<Rightarrow> (Inl (TypeError ''Cannot read properties of undefined''), s)
      | Some chat \<Rightarrow>
          (case f of
             Rejected m \<Rightarrow> (Inl (TypeError m), s)
           | Responded r \<Rightarrow>
               (case response_body r of
                  NotJson m \<Rightarrow> (Inl (SyntaxError m), s)
                | Json data \<Rightarrow>
                    if \<not> ok r then
                      (if status r = 401
                       then (Inl (Error ''API key invalid. Please update your API key.''),
                             s\<lparr>userApiKey := None,
                               localStorage := (localStorage s)\<lparr>user_api_key := None\<rparr>,
                               apiKeyModalOpen := True\<rparr>)
                       else (Inl (Error (or_else (reply_error data)
                                           (''Request failed: '' @ statusText r))), s))
                    else if \<not> success data
                    then (Inl (Error (or_else (reply_error data) ''Request failed'')), s)
                    else (Inr (reply_content data), s))))"

text \<open>
  \<^verbatim>\<open>sendMessage\<close> (line 330). \<open>messageInput\<close> is the text of the input field,
  \<open>f\<close> the outcome of the request and \<open>later\<close> the readings of the flag during the
  typing. The user message is stored before the request. An error thrown inside the
  \<^verbatim>\<open>try\<close> block, by the request, the typing or the title, is caught and stored as a
  message of the assistant; an error of \<^verbatim>\<open>addMessage\<close> outside the block, or inside
  the \<^verbatim>\<open>catch\<close>, is the result of the call.
\<close>

definition showTypingIndicator :: "app \<Rightarrow> app" where
  "showTypingIndicator s = s\<lparr>isGenerating := True\<rparr>"

definition removeTypingIndicator :: "app \<Rightarrow> app" where
  "removeTypingIndicator s = s\<lparr>isGenerating := False\<rparr>"

definition openApiKeyModal :: "app \<Rightarrow> app" where
  "openApiKeyModal s = s\<lparr>apiKeyModalOpen := True\<rparr>"

definition try_block :: "app \<Rightarrow> string \<Rightarrow> fetched \<Rightarrow> (nat \<Rightarrow> bool) \<Rightarrow> error option \<times> app" where
  "try_block s message f later =
     (case generateAIResponse s f of
        (Inl e, s1) \<Rightarrow> (Some e, s1)
      | (Inr response, s1) \<Rightarrow>
          (let s2 = removeTypingIndicator s1;
               t = typeMessage s2 later response ''assistant'' ''text''
           in case raised t of
                Some e \<Rightarrow> (Some e, after t)
              | None \<Rightarrow> updateChatTitleFromFirstMessage (after t) message))"

definition sendMessage :: "app \<Rightarrow> string \<Rightarrow> fetched \<Rightarrow> (nat \<Rightarrow> bool) \<Rightarrow> error option \<times> app" where
  "sendMessage s messageInput f later =
     (if isGenerating s then (None, s)
      else if \<not> truthy (userApiKey s) then (None, openApiKeyModal s)
      else let message = trim messageInput
           in if message = [] then (None, s)
              else (case addMessage s ''user'' message ''text'' of
                      (Some e, s1) \<Rightarrow> (Some e, s1)
                    | (None, s1) \<Rightarrow>
                        (case try_block (showTypingIndicator s1) message f later of
                           (None, s2) \<Rightarrow> (None, s2)
                         | (Some error, s2) \<Rightarrow>
                             addMessage (removeTypingIndicator s2) ''assistant''
                               (''Error: '' @ error_message error) ''text'')))"

section \<open>Example states\<close>

text \<open>
  A store with two conversations, the first of them active and already titled, used to
  run the operations on concrete input.
\<close>

definition example_chat :: chat where
  "example_chat = \<lparr>chat_id = ''chat_1'', title = ''Greetings'',
     messages = [\<lparr>role = ''user'', content = ''Hello'', type = ''text'', caption = None\<rparr>,
                 \<lparr>role = ''assistant'', content = ''Hi'', type = ''text'', caption = None\<rparr>],
     mode = ''chat'', createdAt = 5\<rparr>"

definition other_chat :: chat where
  "other_chat = \<lparr>chat_id = ''chat_2'', title = ''New Chat'', messages = [], mode = ''chat'', createdAt = 9\<rparr>"

definition example_app :: app where
  "example_app = \<lparr>currentChatId = Some ''chat_1'',
     chats = [(''chat_1'', example_chat), (''chat_2'', other_chat)],
     isGenerating = False, currentMode = ''chat'', jsonMode = False, userApiKey = Some ''sk-1'',
     localStorage = \<lparr>ai_chats = Some (Serialized [example_chat, other_chat]),
                      current_chat_id = Some ''chat_1'', user_api_key = Some ''sk-1''\<rparr>,
     apiKeyModalOpen = False\<rparr>"


text \<open>
  Readings of the generation flag during the typing: never cleared, and cleared before
  the third code unit. \<open>typing_app\<close> is the example store while a response is typed.
\<close>

definition always :: "nat \<Rightarrow> bool" where
  "always i = True"

definition first_two :: "nat \<Rightarrow> bool" where
  "first_two i = (i < 2)"

definition typing_app :: app where
  "typing_app = example_app\<lparr>isGenerating := True\<rparr>"

text \<open>The answer of the server to a request with a key that the provider refuses.\<close>

definition unauthorized_response :: response where
  "unauthorized_response = \<lparr>status = 401, statusText = ''Unauthorized'',
     response_body = Json \<lparr>success = False, reply_content = [],
                            reply_error = Some ''Invalid API key''\<rparr>\<rparr>"

definition unauthorized :: fetched where
  "unauthorized = Responded unauthorized_response"

text \<open>
  What counts as no history: a missing item, an item that is not the JSON text of an
  array of conversations, and the text of the empty array. \<open>bootstrap_chat\<close> is the
  conversation that \<^verbatim>\<open>createNewChat\<close> makes in a fresh controller.
\<close>

definition no_history :: "chats_item option \<Rightarrow> bool" where
  "no_history item =
     (case item of None \<Rightarrow> True | Some (Malformed t) \<Rightarrow> True | Some (Serialized cs) \<Rightarrow> cs = [])"

definition bootstrap_chat :: "nat \<Rightarrow> nat \<Rightarrow> chat" where
  "bootstrap_chat now created =
     \<lparr>chat_id = ''chat_'' @ decimal now, title = ''New Chat'', messages = [],
      mode = ''chat'', createdAt = created\<rparr>"

definition corrupt_storage :: storage where
  "corrupt_storage = \<lparr>ai_chats = Some (Malformed ''[{id:''), current_chat_id = Some ''chat_3'',
                       user_api_key = None\<rparr>"

text \<open>
  The invariant of the map of conversations: a \<^verbatim>\<open>Map\<close> has each key once, and every
  conversation is stored under its own identifier.
\<close>

definition store_inv :: "app \<Rightarrow> bool" where
  "store_inv s = (distinct (map fst (chats s)) \<and> (\<forall>(k, c) \<in> set (chats s). chat_id c = k))"

text \<open>
  A round trip on the example store: a new conversation, a question, an answer, the
  title, and a fresh controller on the storage that is left, after the title call
  (\<open>round_trip_fresh\<close>) and before it (\<open>round_trip_reloaded\<close>).
\<close>

definition asked :: string where
  "asked = ''What is the capital of France?''"

definition round_trip_1 :: app where
  "round_trip_1 = createNewChat example_app 77 78"

definition round_trip_2 :: app where
  "round_trip_2 = snd (addMessage round_trip_1 ''user'' asked ''text'')"

definition round_trip_3 :: app where
  "round_trip_3 = snd (addMessage round_trip_2 ''assistant'' ''Paris.'' ''text'')"

definition round_trip_4 :: app where
  "round_trip_4 = snd (updateChatTitleFromFirstMessage round_trip_3 asked)"

definition round_trip_fresh :: app where
  "round_trip_fresh = snd (initializeApp (localStorage round_trip_4) 90 91)"

definition round_trip_reloaded :: app where
  "round_trip_reloaded = snd (initializeApp (localStorage round_trip_3) 90 91)"

section \<open>Sequences of store operations\<close>

text \<open>
  The three operations that change the messages or the title of the active conversation,
  as data, so that a sequence of calls can be run. A call that raises leaves the state
  as it is. \<open>title_changes\<close> counts the steps of a run after which the title of the
  active conversation is another one than before.
\<close>

datatype store_op =
  AddMessage string string string
| AddImageMessage string string string
| UpdateChatTitleFromFirstMessage string

fun apply_op :: "app \<Rightarrow> store_op \<Rightarrow> app" where
  "apply_op s (AddMessage r c t) = snd (addMessage s r c t)"
| "apply_op s (AddImageMessage imageUrl cap r) = snd (addImageMessage s imageUrl cap r)"
| "apply_op s (UpdateChatTitleFromFirstMessage firstMessage) =
     snd (updateChatTitleFromFirstMessage s firstMessage)"

definition active_title :: "app \<Rightarrow> string option" where
  "active_title s = map_option title (currentChat s)"

definition active_count :: "app \<Rightarrow> nat option" where
  "active_count s = map_option (\<lambda>c. length (messages c)) (currentChat s)"

fun title_changes :: "app \<Rightarrow> store_op list \<Rightarrow> nat" where
  "title_changes s [] = 0"
| "title_changes s (x # xs) =
     (if active_title (apply_op s x) \<noteq> active_title s then 1 else 0)
     + title_changes (apply_op s x) xs"

text \<open>
  A server error, a successful answer, a fresh controller with a key, and an exchange of
  two rounds with the title call after each.
\<close>

definition server_error :: fetched where
  "server_error = Responded \<lparr>status = 500, statusText = ''Internal Server Error'',
     response_body = Json \<lparr>success = False, reply_content = [],
                            reply_error = Some ''AI service error''\<rparr>\<rparr>"

definition started_app :: app where
  "started_app = snd (initializeApp
     \<lparr>ai_chats = None, current_chat_id = None, user_api_key = Some ''sk-1''\<rparr> 77 78)"

definition exchange :: "store_op list" where
  "exchange = [AddMessage ''user'' ''Hello'' ''text'', AddMessage ''assistant'' ''Hi'' ''text'',
               UpdateChatTitleFromFirstMessage ''Hello'',
               AddMessage ''user'' ''More'' ''text'', AddMessage ''assistant'' ''Sure'' ''text'',
               UpdateChatTitleFromFirstMessage ''More'']"

definition two_stored :: app where
  "two_stored = foldl apply_op started_app (take 2 exchange)"

definition five_stored :: app where
  "five_stored = foldl apply_op started_app (take 5 exchange)"

definition greeting_response :: response where
  "greeting_response = \<lparr>status = 200, statusText = ''OK'',
     response_body = Json \<lparr>success = True, reply_content = ''Hi, how can I help?'',
                            reply_error = None\<rparr>\<rparr>"

section \<open>Plain text\<close>






section \<open>Backticks left by the inline code rule\<close>

text \<open>
  A text is settled when the backticks it begins with, if any, are followed by the end of
  the text, by an opening angle bracket, or by a rest without any backtick.
\<close>

definition backtick :: char where
  "backtick = CHR 0x60"

definition settled :: "string \<Rightarrow> bool" where
  "settled u =
     (let v = dropWhile (\<lambda>x. x = backtick) u
      in v = u \<or> v = [] \<or> hd v = CHR ''<'' \<or> backtick \<notin> set v)"

section \<open>Properties of the store\<close>

lemma map_of_Map_set: "map_of (Map_set m k v) = (map_of m)(k \<mapsto> v)"
  by (induction m) auto

lemma keys_Map_set: "map_of m k \<noteq> None \<Longrightarrow> map fst (Map_set m k v) = map fst m"
  by (induction m) auto

lemma currentChat_saveChats [simp]: "currentChat (saveChats s) = currentChat s"
  by (simp add: currentChat_def saveChats_def split: option.splits)

lemma currentChat_put_current:
  "currentChat s = Some c \<Longrightarrow> currentChat (put_current s c') = Some c'"
  by (auto simp: currentChat_def put_current_def Map_get_def map_of_Map_set split: option.splits)


text \<open>
  C10. Clearing changes the messages of the active conversation and nothing else in the
  map: when the active conversation exists, it has no messages afterwards and keeps its
  identifier, title, creation time and mode; every other key has the value it had; the
  keys and their order are the same; the active identifier is the same.
\<close>

theorem clearCurrentChat_frame:
  assumes "currentChat s = Some c"
  shows "(\<exists>c'. currentChat (clearCurrentChat s) = Some c' \<and> messages c' = []
            \<and> chat_id c' = chat_id c \<and> title c' = title c
            \<and> createdAt c' = createdAt c \<and> mode c' = mode c)
       \<and> (\<forall>k. Some k \<noteq> currentChatId s \<longrightarrow>
              Map_get (chats (clearCurrentChat s)) k = Map_get (chats s) k)
       \<and> map fst (chats (clearCurrentChat s)) = map fst (chats s)
       \<and> currentChatId (clearCurrentChat s) = currentChatId s"
proof -
  from assms obtain k where k: "currentChatId s = Some k" "map_of (chats s) k = Some c"
    by (auto simp: currentChat_def Map_get_def split: option.splits)
  have cl: "clearCurrentChat s = saveChats (put_current s (c\<lparr>messages := []\<rparr>))"
    using assms by (simp add: clearCurrentChat_def)
  have "currentChat (clearCurrentChat s) = Some (c\<lparr>messages := []\<rparr>)"
    using assms by (simp add: cl currentChat_put_current)
  moreover have "\<forall>j. Some j \<noteq> currentChatId s \<longrightarrow>
      Map_get (chats (clearCurrentChat s)) j = Map_get (chats s) j"
    using k by (auto simp: cl saveChats_def put_current_def Map_get_def map_of_Map_set)
  moreover have "map fst (chats (clearCurrentChat s)) = map fst (chats s)"
    using k by (simp add: cl saveChats_def put_current_def keys_Map_set)
  moreover have "currentChatId (clearCurrentChat s) = currentChatId s"
    using k by (simp add: cl saveChats_def put_current_def)
  ultimately show ?thesis by simp
qed

theorem clearCurrentChat_frame_witness:
  "currentChat example_app = Some example_chat
   \<and> currentChat (clearCurrentChat example_app) = Some (example_chat\<lparr>messages := []\<rparr>)
   \<and> Map_get (chats (clearCurrentChat example_app)) ''chat_2'' = Some other_chat
   \<and> map fst (chats (clearCurrentChat example_app)) = [''chat_1'', ''chat_2'']
   \<and> currentChatId (clearCurrentChat example_app) = Some ''chat_1''"
proof -
  have h: "currentChat example_app = Some example_chat"
    by (simp add: currentChat_def example_app_def Map_get_def)
  from clearCurrentChat_frame [OF h] obtain c' where
    c': "currentChat (clearCurrentChat example_app) = Some c'" "messages c' = []"
        "chat_id c' = chat_id example_chat" "title c' = title example_chat"
        "createdAt c' = createdAt example_chat" "mode c' = mode example_chat"
    and o: "\<forall>k. Some k \<noteq> currentChatId example_app \<longrightarrow>
              Map_get (chats (clearCurrentChat example_app)) k = Map_get (chats example_app) k"
    and ks: "map fst (chats (clearCurrentChat example_app)) = map fst (chats example_app)"
    and p: "currentChatId (clearCurrentChat example_app) = currentChatId example_app"
    by blast
  have "c' = example_chat\<lparr>messages := []\<rparr>" using c'(2-6) by simp
  moreover have "Map_get (chats (clearCurrentChat example_app)) ''chat_2'' = Some other_chat"
    using o by (simp add: example_app_def Map_get_def)
  ultimately show ?thesis using h c'(1) ks p by (simp add: example_app_def)
qed

section \<open>Properties of the typing presenter\<close>

text \<open>
  What the loop has shown is always an initial part of the text, and when the flag is
  read false for the first time before code unit \<open>k\<close>, it is the first \<open>k\<close> code
  units.
\<close>

lemma typeLoop_take:
  "i \<le> length str \<Longrightarrow> d = take i str \<Longrightarrow> \<exists>n\<le>length str. typeLoop flag str i d = take n str"
proof (induction flag str i d rule: typeLoop.induct)
  case (1 flag str i d)
  show ?case
  proof (cases "i < length str \<and> flag i")
    case True
    then have "d @ [str ! i] = take (Suc i) str"
      using "1.prems" by (simp add: take_Suc_conv_app_nth)
    with True "1.IH" have "\<exists>n\<le>length str. typeLoop flag str (Suc i) (d @ [str ! i]) = take n str"
      by simp
    with True show ?thesis by (subst typeLoop.simps) simp
  next
    case False
    then have "typeLoop flag str i d = d" by (subst typeLoop.simps) auto
    with "1.prems" show ?thesis by auto
  qed
qed

lemma typeLoop_prefix: "prefix (typeLoop flag str 0 []) str"
proof -
  obtain n where "typeLoop flag str 0 [] = take n str"
    using typeLoop_take [of 0 str "[]" flag] by auto
  then show ?thesis by (simp add: take_is_prefix)
qed

lemma typeLoop_cancelled:
  "\<forall>j. i \<le> j \<and> j < k \<longrightarrow> flag j \<Longrightarrow> \<not> flag k \<Longrightarrow> i \<le> k \<Longrightarrow> k < length str \<Longrightarrow> d = take i str
   \<Longrightarrow> typeLoop flag str i d = take k str"
proof (induction flag str i d rule: typeLoop.induct)
  case (1 flag str i d)
  show ?case
  proof (cases "i = k")
    case True
    with "1.prems" show ?thesis by (subst typeLoop.simps) simp
  next
    case False
    with "1.prems" have lt: "i < k" "i < length str" "flag i" by auto
    then have "d @ [str ! i] = take (Suc i) str"
      using "1.prems" by (simp add: take_Suc_conv_app_nth)
    with lt "1.IH" "1.prems" have "typeLoop flag str (Suc i) (d @ [str ! i]) = take k str"
      by simp
    with lt show ?thesis by (subst typeLoop.simps) simp
  qed
qed

text \<open>
  C6. Whatever the readings of the flag are, what the presenter shows when its loop ends
  is a prefix of the full text, and the message that \<^verbatim>\<open>typeMessage\<close> then stores in
  the active conversation, in memory and in \<^verbatim>\<open>localStorage\<close>, has the full text as
  its content. For the type \<^verbatim>\<open>image\<close> nothing is typed and the full text is stored
  as well.
\<close>

theorem typeMessage_stores_full_text:
  assumes "currentChat s = Some c"
  shows "prefix (displayed (typeMessage s later str r t)) str
       \<and> raised (typeMessage s later str r t) = None
       \<and> (\<exists>m. currentChat (after (typeMessage s later str r t))
                  = Some (c\<lparr>messages := messages c @ [m]\<rparr>)
               \<and> content m = str \<and> role m = r)
       \<and> ai_chats (localStorage (after (typeMessage s later str r t)))
           = Some (Serialized (map snd (chats (after (typeMessage s later str r t)))))"
proof -
  let ?m = "\<lambda>ty cap. \<lparr>role = r, content = str, type = ty, caption = cap\<rparr>"
  have add: "addMessage s r str t
      = (None, saveChats (put_current s (c\<lparr>messages := messages c @ [?m t None]\<rparr>)))"
    using assms by (simp add: addMessage_def)
  have img: "addImageMessage s str ''Generated Image'' r
      = (None, saveChats (put_current s
           (c\<lparr>messages := messages c @ [?m ''image'' (Some ''Generated Image'')]\<rparr>)))"
    using assms by (simp add: addImageMessage_def)
  have saved: "\<And>u. ai_chats (localStorage (saveChats u)) = Some (Serialized (map snd (chats u)))"
              "\<And>u. chats (saveChats u) = chats u"
    by (simp_all add: saveChats_def)
  show ?thesis
  proof (cases "t = ''image''")
    case True
    then have tm: "typeMessage s later str r t = \<lparr>raised = None, displayed = [],
        after = saveChats (put_current s
           (c\<lparr>messages := messages c @ [?m ''image'' (Some ''Generated Image'')]\<rparr>))\<rparr>"
      by (simp add: typeMessage_def img)
    have "\<exists>m. currentChat (after (typeMessage s later str r t))
                 = Some (c\<lparr>messages := messages c @ [m]\<rparr>) \<and> content m = str \<and> role m = r"
      using assms
      by (intro exI [of _ "?m ''image'' (Some ''Generated Image'')"])
         (simp add: tm currentChat_put_current)
    then show ?thesis
      by (simp add: tm saved)
  next
    case False
    then have tm: "typeMessage s later str r t = \<lparr>raised = None,
        displayed = typeLoop (\<lambda>i. if i = 0 then isGenerating s else later i) str 0 [],
        after = saveChats (put_current s (c\<lparr>messages := messages c @ [?m t None]\<rparr>))\<rparr>"
      by (simp add: typeMessage_def add)
    have "\<exists>m. currentChat (after (typeMessage s later str r t))
                 = Some (c\<lparr>messages := messages c @ [m]\<rparr>) \<and> content m = str \<and> role m = r"
      using assms
      by (intro exI [of _ "?m t None"]) (simp add: tm currentChat_put_current)
    then show ?thesis
      by (simp add: tm saved typeLoop_prefix)
  qed
qed


theorem typeMessage_stores_full_text_witness:
  "currentChat typing_app = Some example_chat
   \<and> displayed (typeMessage typing_app first_two ''Hi.\<newline>Bye'' ''assistant'' ''text'') = ''Hi''
   \<and> prefix (displayed (typeMessage typing_app first_two ''Hi.\<newline>Bye'' ''assistant'' ''text''))
        ''Hi.\<newline>Bye''
   \<and> raised (typeMessage typing_app first_two ''Hi.\<newline>Bye'' ''assistant'' ''text'') = None
   \<and> (\<exists>m. currentChat (after (typeMessage typing_app first_two ''Hi.\<newline>Bye'' ''assistant'' ''text''))
                  = Some (example_chat\<lparr>messages := messages example_chat @ [m]\<rparr>)
               \<and> content m = ''Hi.\<newline>Bye'' \<and> role m = ''assistant'')"
proof -
  have h: "currentChat typing_app = Some example_chat"
    by code_simp
  have d: "displayed (typeMessage typing_app first_two ''Hi.\<newline>Bye'' ''assistant'' ''text'') = ''Hi''"
    by code_simp
  show ?thesis
    using h d typeMessage_stores_full_text [OF h, of first_two "''Hi.\<newline>Bye''" "''assistant''" "''text''"]
    by simp
qed

section \<open>Frame lemmas\<close>

lemma currentChat_cong:
  "currentChatId s' = currentChatId s \<Longrightarrow> chats s' = chats s \<Longrightarrow> currentChat s' = currentChat s"
  by (simp add: currentChat_def split: option.splits)

lemma currentChat_indicator [simp]:
  "currentChat (showTypingIndicator s) = currentChat s"
  "currentChat (removeTypingIndicator s) = currentChat s"
  by (simp_all add: currentChat_def showTypingIndicator_def removeTypingIndicator_def
      split: option.splits)

lemma saveChats_fields [simp]:
  "currentChatId (saveChats s) = currentChatId s"
  "chats (saveChats s) = chats s"
  "isGenerating (saveChats s) = isGenerating s"
  "userApiKey (saveChats s) = userApiKey s"
  "apiKeyModalOpen (saveChats s) = apiKeyModalOpen s"
  "user_api_key (localStorage (saveChats s)) = user_api_key (localStorage s)"
  "ai_chats (localStorage (saveChats s)) = Some (Serialized (map snd (chats s)))"
  by (simp_all add: saveChats_def)

lemma put_current_fields [simp]:
  "currentChatId (put_current s c) = currentChatId s"
  "isGenerating (put_current s c) = isGenerating s"
  "userApiKey (put_current s c) = userApiKey s"
  "apiKeyModalOpen (put_current s c) = apiKeyModalOpen s"
  "localStorage (put_current s c) = localStorage s"
  by (simp_all add: put_current_def split: option.splits)

lemma addMessage_current:
  "currentChat s = Some c \<Longrightarrow>
   addMessage s r str t
     = (None, saveChats (put_current s
          (c\<lparr>messages := messages c @ [\<lparr>role = r, content = str, type = t, caption = None\<rparr>]\<rparr>)))"
  by (simp add: addMessage_def)

section \<open>Switching the active conversation\<close>

text \<open>
  C5, as stated, fails: \<^verbatim>\<open>switchChat\<close> has no check of the identifier. With an
  identifier that is not in the map, the active identifier and the stored one are both
  changed before the error is raised.
\<close>

theorem switchChat_absent_counterexample:
  "Map_get (chats example_app) ''chat_7'' = None
   \<and> currentChatId example_app = Some ''chat_1''
   \<and> current_chat_id (localStorage example_app) = Some ''chat_1''
   \<and> fst (switchChat example_app ''chat_7'') = Some (TypeError ''Cannot read properties of undefined'')
   \<and> currentChatId (snd (switchChat example_app ''chat_7'')) = Some ''chat_7''
   \<and> current_chat_id (localStorage (snd (switchChat example_app ''chat_7''))) = Some ''chat_7''"
  by code_simp

text \<open>
  C5, amended. For every identifier, \<^verbatim>\<open>switchChat\<close> makes it the active one and
  saves it, together with the unchanged conversations; the call returns normally when
  the identifier is in the map and raises a TypeError, after these effects, when it is
  not.
\<close>

theorem switchChat_sets_and_persists:
  "currentChatId (snd (switchChat s chatId)) = Some chatId
   \<and> current_chat_id (localStorage (snd (switchChat s chatId))) = Some chatId
   \<and> ai_chats (localStorage (snd (switchChat s chatId))) = Some (Serialized (map snd (chats s)))
   \<and> chats (snd (switchChat s chatId)) = chats s
   \<and> (fst (switchChat s chatId) = None) = Map_has (chats s) chatId
   \<and> (fst (switchChat s chatId) = Some (TypeError ''Cannot read properties of undefined''))
       = (\<not> Map_has (chats s) chatId)"
  by (auto simp: switchChat_def saveChats_def Map_get_def Map_has_def Let_def split: option.splits)

theorem switchChat_sets_and_persists_witness:
  "currentChatId (snd (switchChat example_app ''chat_2'')) = Some ''chat_2''
   \<and> current_chat_id (localStorage (snd (switchChat example_app ''chat_2''))) = Some ''chat_2''
   \<and> chats (snd (switchChat example_app ''chat_2'')) = chats example_app
   \<and> fst (switchChat example_app ''chat_2'') = None
   \<and> Map_has (chats example_app) ''chat_2''"
proof -
  have "Map_has (chats example_app) ''chat_2''" by code_simp
  then show ?thesis
    using switchChat_sets_and_persists [of example_app "''chat_2''"] by simp
qed

section \<open>A refused key\<close>

lemma generateAIResponse_401:
  assumes "currentChat s = Some c" "status r = 401" "response_body r = Json data"
  shows "generateAIResponse s (Responded r)
         = (Inl (Error ''API key invalid. Please update your API key.''),
            s\<lparr>userApiKey := None, localStorage := (localStorage s)\<lparr>user_api_key := None\<rparr>,
              apiKeyModalOpen := True\<rparr>)"
  using assms by (simp add: generateAIResponse_def ok_def)

lemma sendMessage_unfold:
  assumes "\<not> isGenerating s" and "truthy (userApiKey s)" and "trim messageInput \<noteq> []"
  shows "sendMessage s messageInput f later
      = (case addMessage s ''user'' (trim messageInput) ''text'' of
           (Some e, s1) \<Rightarrow> (Some e, s1)
         | (None, s1) \<Rightarrow>
             (case try_block (showTypingIndicator s1) (trim messageInput) f later of
                (None, s2) \<Rightarrow> (None, s2)
              | (Some error, s2) \<Rightarrow>
                  addMessage (removeTypingIndicator s2) ''assistant''
                    (''Error: '' @ error_message error) ''text''))"
  unfolding sendMessage_def using assms by (simp only: Let_def if_False if_True not_False_eq_True simp_thms)


text \<open>
  C4, as stated, fails: after a status 401 the conversation has two more messages, the
  one of the user, stored before the request, and an error message of the assistant,
  stored by the \<^verbatim>\<open>catch\<close> block of \<^verbatim>\<open>sendMessage\<close>.
\<close>

theorem sendMessage_unauthorized_counterexample:
  "status unauthorized_response = 401
   \<and> currentChat example_app = Some example_chat
   \<and> fst (sendMessage example_app ''Hello again'' unauthorized always) = None
   \<and> currentChat (snd (sendMessage example_app ''Hello again'' unauthorized always))
       = Some (example_chat\<lparr>messages := messages example_chat
            @ [\<lparr>role = ''user'', content = ''Hello again'', type = ''text'', caption = None\<rparr>,
               \<lparr>role = ''assistant'',
                content = ''Error: API key invalid. Please update your API key.'',
                type = ''text'', caption = None\<rparr>]\<rparr>)"
  by code_simp

text \<open>
  C4, amended. When the request of a chat message is answered with status 401 and a JSON
  body, \<^verbatim>\<open>generateAIResponse\<close> forgets the key, in the controller and in
  \<^verbatim>\<open>localStorage\<close>, opens the key dialog, raises the error and leaves the
  conversations as they are; \<^verbatim>\<open>sendMessage\<close> returns normally with the same
  effects, the flag cleared, and the active conversation extended by the user message
  and by the error message of the assistant.
\<close>

theorem sendMessage_unauthorized:
  assumes "\<not> isGenerating s" and "truthy (userApiKey s)" and "trim messageInput \<noteq> []"
    and "currentChat s = Some c" and "status r = 401" and "response_body r = Json data"
  shows "userApiKey (snd (generateAIResponse s (Responded r))) = None
       \<and> user_api_key (localStorage (snd (generateAIResponse s (Responded r)))) = None
       \<and> apiKeyModalOpen (snd (generateAIResponse s (Responded r)))
       \<and> chats (snd (generateAIResponse s (Responded r))) = chats s
       \<and> fst (generateAIResponse s (Responded r))
           = Inl (Error ''API key invalid. Please update your API key.'')
       \<and> fst (sendMessage s messageInput (Responded r) later) = None
       \<and> userApiKey (snd (sendMessage s messageInput (Responded r) later)) = None
       \<and> user_api_key (localStorage (snd (sendMessage s messageInput (Responded r) later))) = None
       \<and> apiKeyModalOpen (snd (sendMessage s messageInput (Responded r) later))
       \<and> \<not> isGenerating (snd (sendMessage s messageInput (Responded r) later))
       \<and> currentChat (snd (sendMessage s messageInput (Responded r) later))
           = Some (c\<lparr>messages := messages c
                @ [\<lparr>role = ''user'', content = trim messageInput, type = ''text'', caption = None\<rparr>,
                   \<lparr>role = ''assistant'',
                    content = ''Error: API key invalid. Please update your API key.'',
                    type = ''text'', caption = None\<rparr>]\<rparr>)"
proof -
  define u where "u = \<lparr>role = ''user'', content = trim messageInput, type = ''text'', caption = None\<rparr>"
  define e where "e = \<lparr>role = ''assistant'',
    content = ''Error: API key invalid. Please update your API key.'', type = ''text'', caption = None\<rparr>"
  define c1 where "c1 = c\<lparr>messages := messages c @ [u]\<rparr>"
  define s1 where "s1 = saveChats (put_current s c1)"
  define s2 where "s2 = showTypingIndicator s1"
  define s3 where "s3 = s2\<lparr>userApiKey := None,
    localStorage := (localStorage s2)\<lparr>user_api_key := None\<rparr>, apiKeyModalOpen := True\<rparr>"
  define s4 where "s4 = removeTypingIndicator s3"
  define s5 where "s5 = saveChats (put_current s4 (c1\<lparr>messages := messages c1 @ [e]\<rparr>))"
  have a1: "addMessage s ''user'' (trim messageInput) ''text'' = (None, s1)"
    using assms(4) by (simp add: addMessage_current s1_def c1_def u_def)
  have c2: "currentChat s2 = Some c1"
    using assms(4) by (simp add: s2_def s1_def currentChat_put_current)
  have g: "generateAIResponse s2 (Responded r)
      = (Inl (Error ''API key invalid. Please update your API key.''), s3)"
    unfolding s3_def using c2 assms(5,6) by (rule generateAIResponse_401)
  have t: "try_block s2 (trim messageInput) (Responded r) later
      = (Some (Error ''API key invalid. Please update your API key.''), s3)"
    by (simp add: try_block_def g)
  have "currentChat s3 = currentChat s2"
    by (rule currentChat_cong) (simp_all add: s3_def)
  with c2 have c4: "currentChat s4 = Some c1"
    by (simp add: s4_def)
  have a2: "addMessage s4 ''assistant''
      ''Error: API key invalid. Please update your API key.'' ''text'' = (None, s5)"
    using c4 by (simp add: addMessage_current s5_def e_def)
  have sm: "sendMessage s messageInput (Responded r) later = (None, s5)"
    unfolding sendMessage_unfold [OF assms(1-3)] a1 prod.case option.case
      s2_def [symmetric] t error_message.simps s4_def [symmetric] append_Cons append_Nil a2 ..
  have fin: "userApiKey s5 = None" "user_api_key (localStorage s5) = None" "apiKeyModalOpen s5"
    "\<not> isGenerating s5"
    by (simp_all add: s5_def s4_def s3_def removeTypingIndicator_def)
  have c5: "currentChat s5 = Some (c1\<lparr>messages := messages c1 @ [e]\<rparr>)"
    using c4 by (simp add: s5_def currentChat_put_current)
  have m: "c1\<lparr>messages := messages c1 @ [e]\<rparr> = c\<lparr>messages := messages c @ [u, e]\<rparr>"
    by (simp add: c1_def)
  have gen: "generateAIResponse s (Responded r)
         = (Inl (Error ''API key invalid. Please update your API key.''),
            s\<lparr>userApiKey := None, localStorage := (localStorage s)\<lparr>user_api_key := None\<rparr>,
              apiKeyModalOpen := True\<rparr>)"
    using assms(4,5,6) by (rule generateAIResponse_401)
  show ?thesis
    unfolding gen sm using fin c5 unfolding m by (simp add: u_def e_def)
qed

theorem sendMessage_unauthorized_witness:
  "\<not> isGenerating example_app \<and> truthy (userApiKey example_app) \<and> trim '' Hello again '' \<noteq> []
   \<and> currentChat example_app = Some example_chat
   \<and> userApiKey (snd (sendMessage example_app '' Hello again '' unauthorized always)) = None
   \<and> user_api_key (localStorage (snd (sendMessage example_app '' Hello again '' unauthorized always))) = None
   \<and> apiKeyModalOpen (snd (sendMessage example_app '' Hello again '' unauthorized always))
   \<and> currentChat (snd (sendMessage example_app '' Hello again '' unauthorized always))
       = Some (example_chat\<lparr>messages := messages example_chat
            @ [\<lparr>role = ''user'', content = ''Hello again'', type = ''text'', caption = None\<rparr>,
               \<lparr>role = ''assistant'',
                content = ''Error: API key invalid. Please update your API key.'',
                type = ''text'', caption = None\<rparr>]\<rparr>)"
proof -
  have h: "\<not> isGenerating example_app" "truthy (userApiKey example_app)"
    "trim '' Hello again '' \<noteq> []" "currentChat example_app = Some example_chat"
    by code_simp+
  have t: "trim '' Hello again '' = ''Hello again''" by code_simp
  have r: "status unauthorized_response = 401"
    "response_body unauthorized_response
       = Json \<lparr>success = False, reply_content = [], reply_error = Some ''Invalid API key''\<rparr>"
    by (simp_all add: unauthorized_response_def)
  show ?thesis
    using h sendMessage_unauthorized [OF h r, of always]
    by (simp add: unauthorized_def t)
qed

section \<open>Loading the store\<close>

lemma loadChats_returns: "fst (loadChats s now created) = None"
  by (simp add: loadChats_def Let_def)

lemma Map_new_Nil [simp]: "Map_new [] = []"
  by (simp add: Map_new_def)

lemma loadChats_no_history:
  assumes "no_history (ai_chats (localStorage s))" and "chats s = []"
  shows "snd (loadChats s now created) = createNewChat (s\<lparr>chats := []\<rparr>) now created"
proof -
  have s: "s\<lparr>chats := []\<rparr> = s" using assms(2) by simp
  show ?thesis
    using assms
    by (auto simp: loadChats_def Let_def no_history_def parse_saved_def Map_has_def s
        split: option.splits chats_item.splits)
qed

text \<open>
  C7. \<^verbatim>\<open>loadChats\<close> never raises, whatever is stored. When the stored item is missing,
  empty or malformed, a fresh controller ends with exactly one conversation, new and
  empty, which is the active one, the only one in the list, and the one saved.
\<close>

theorem loadChats_never_raises_and_bootstraps:
  "fst (loadChats s now created) = None
   \<and> fst (initializeApp ls now created) = None
   \<and> (no_history (ai_chats ls) \<longrightarrow>
        chats (snd (initializeApp ls now created))
          = [(''chat_'' @ decimal now, bootstrap_chat now created)]
        \<and> currentChatId (snd (initializeApp ls now created)) = Some (''chat_'' @ decimal now)
        \<and> chat_list (snd (initializeApp ls now created)) = [bootstrap_chat now created]
        \<and> ai_chats (localStorage (snd (initializeApp ls now created)))
            = Some (Serialized [bootstrap_chat now created]))"
proof -
  let ?s = "loadUserSettings (constructor ls)"
  have f: "ai_chats (localStorage ?s) = ai_chats ls" "chats ?s = []" "currentMode ?s = ''chat''"
    by (simp_all add: loadUserSettings_def constructor_def)
  {
    assume "no_history (ai_chats ls)"
    then have "snd (initializeApp ls now created) = createNewChat (?s\<lparr>chats := []\<rparr>) now created"
      unfolding initializeApp_def using f by (intro loadChats_no_history) simp_all
    then have "chats (snd (initializeApp ls now created))
          = [(''chat_'' @ decimal now, bootstrap_chat now created)]
        \<and> currentChatId (snd (initializeApp ls now created)) = Some (''chat_'' @ decimal now)
        \<and> chat_list (snd (initializeApp ls now created)) = [bootstrap_chat now created]
        \<and> ai_chats (localStorage (snd (initializeApp ls now created)))
            = Some (Serialized [bootstrap_chat now created])"
      using f by (simp add: createNewChat_def Let_def bootstrap_chat_def chat_list_def saveChats_def)
  }
  then show ?thesis
    by (simp add: loadChats_returns initializeApp_def)
qed

theorem loadChats_never_raises_and_bootstraps_witness:
  "no_history (ai_chats corrupt_storage)
   \<and> fst (initializeApp corrupt_storage 42 43) = None
   \<and> chats (snd (initializeApp corrupt_storage 42 43)) = [(''chat_42'', bootstrap_chat 42 43)]
   \<and> currentChatId (snd (initializeApp corrupt_storage 42 43)) = Some ''chat_42''
   \<and> chat_list (snd (initializeApp corrupt_storage 42 43)) = [bootstrap_chat 42 43]"
proof -
  have h: "no_history (ai_chats corrupt_storage)" by code_simp
  have d: "decimal 42 = ''42''" by code_simp
  show ?thesis
    using h loadChats_never_raises_and_bootstraps [of "constructor corrupt_storage" 42 43 corrupt_storage]
    by (simp add: d)
qed

section \<open>Persistence\<close>

lemma Map_set_fresh: "k \<notin> fst ` set m \<Longrightarrow> Map_set m k v = m @ [(k, v)]"
  by (induction m) auto

lemma foldl_Map_set_distinct:
  "distinct (map fst (m @ es)) \<Longrightarrow> foldl (\<lambda>m (k, v). Map_set m k v) m es = m @ es"
proof (induction es arbitrary: m)
  case Nil
  then show ?case by simp
next
  case (Cons e es)
  obtain k v where e: "e = (k, v)" by (cases e)
  from Cons.prems have "k \<notin> fst ` set m" by (auto simp: e)
  then have "Map_set m k v = m @ [(k, v)]" by (rule Map_set_fresh)
  moreover from Cons.prems have "distinct (map fst ((m @ [(k, v)]) @ es))" by (simp add: e)
  ultimately show ?case using Cons.IH [of "m @ [(k, v)]"] by (simp add: e)
qed

lemma Map_new_distinct: "distinct (map fst es) \<Longrightarrow> Map_new es = es"
  using foldl_Map_set_distinct [of "[]" es] by (simp add: Map_new_def)

lemma entries_values:
  "distinct (map fst m) \<Longrightarrow> \<forall>(k, c) \<in> set m. chat_id c = k \<Longrightarrow> Map_new (map (\<lambda>c. (chat_id c, c)) (map snd m)) = m"
proof -
  assume d: "distinct (map fst m)" and k: "\<forall>(k, c) \<in> set m. chat_id c = k"
  have "map (\<lambda>c. (chat_id c, c)) (map snd m) = m"
    using k by (induction m) auto
  with d show ?thesis by (simp add: Map_new_distinct)
qed

text \<open>Saving and loading again in a fresh controller gives the same map and pointer.\<close>

lemma fresh_load_of_saved:
  assumes "store_inv s" and "currentChatId s = Some k" and "Map_has (chats s) k"
    and "ai_chats ls = Some (Serialized (map snd (chats s)))" and "current_chat_id ls = Some k"
    and "k \<noteq> []"
  shows "chats (snd (initializeApp ls now created)) = chats s
       \<and> currentChatId (snd (initializeApp ls now created)) = Some k"
proof -
  have m: "Map_new (map (\<lambda>c. (chat_id c, c)) (map snd (chats s))) = chats s"
    using assms(1) by (intro entries_values) (simp_all add: store_inv_def)
  have ps: "parse_saved (Serialized (map snd (chats s))) = Inr (chats s)"
    unfolding parse_saved_def chats_item.case m ..
  show ?thesis
    using assms(3-6)
    by (simp add: initializeApp_def loadChats_def Let_def loadUserSettings_def constructor_def
        ps truthy_def)
qed


lemma Map_set_keys: "fst ` set (Map_set m k v) = insert k (fst ` set m)"
  by (induction m) force+

lemma Map_set_distinct: "distinct (map fst m) \<Longrightarrow> distinct (map fst (Map_set m k v))"
  by (induction m) (auto simp: Map_set_keys)

lemma Map_set_values: "(k', c) \<in> set (Map_set m k v) \<Longrightarrow> (k', c) \<in> set m \<or> (k', c) = (k, v)"
  by (induction m) (auto split: if_splits)

lemma store_inv_Map_set:
  assumes "store_inv s" and "chat_id c = k"
  shows "store_inv (saveChats (s\<lparr>chats := Map_set (chats s) k c, currentChatId := p\<rparr>))"
  using assms
  by (auto simp: store_inv_def Map_set_distinct dest!: Map_set_values)

lemma store_inv_createNewChat: "store_inv s \<Longrightarrow> store_inv (createNewChat s now created)"
  unfolding createNewChat_def Let_def by (rule store_inv_Map_set) simp_all

lemma currentChat_createNewChat:
  "currentChat (createNewChat s now created)
     = Some \<lparr>chat_id = ''chat_'' @ decimal now, title = ''New Chat'', messages = [],
             mode = currentMode s, createdAt = created\<rparr>"
  by (simp add: createNewChat_def Let_def currentChat_def Map_get_def map_of_Map_set)

lemma store_inv_put_current:
  assumes "store_inv s" and "currentChat s = Some c" and "chat_id c' = chat_id c"
  shows "store_inv (saveChats (put_current s c'))"
proof -
  from assms(2) obtain k where k: "currentChatId s = Some k" "map_of (chats s) k = Some c"
    by (auto simp: currentChat_def Map_get_def split: option.splits)
  then have "(k, c) \<in> set (chats s)" by (simp add: map_of_SomeD)
  with assms(1) have "chat_id c = k" by (auto simp: store_inv_def)
  with assms(1,3) k(1) have "store_inv (saveChats (s\<lparr>chats := Map_set (chats s) k c', currentChatId := Some k\<rparr>))"
    by (intro store_inv_Map_set) simp_all
  moreover have "s\<lparr>chats := Map_set (chats s) k c', currentChatId := Some k\<rparr> = put_current s c'"
    using k(1) by (simp add: put_current_def)
  ultimately show ?thesis by simp
qed

lemma set_chat_list: "set (chat_list s) = snd ` set (chats s)"
  by (simp add: chat_list_def)

text \<open>
  The invariant holds in a fresh controller after loading, whatever is stored, and each
  operation of the store keeps it (\<open>store_inv_createNewChat\<close>, \<open>store_inv_put_current\<close>).
\<close>

lemma foldl_Map_set_inv:
  "distinct (map fst m) \<Longrightarrow> \<forall>(k, c) \<in> set m. chat_id c = k
   \<Longrightarrow> distinct (map fst (foldl (\<lambda>m (k, v). Map_set m k v) m (map (\<lambda>c. (chat_id c, c)) cs)))
     \<and> (\<forall>(k, c) \<in> set (foldl (\<lambda>m (k, v). Map_set m k v) m (map (\<lambda>c. (chat_id c, c)) cs)).
           chat_id c = k)"
proof (induction cs arbitrary: m)
  case Nil
  then show ?case by simp
next
  case (Cons c cs)
  have "distinct (map fst (Map_set m (chat_id c) c))"
    using Cons.prems(1) by (rule Map_set_distinct)
  moreover have "\<forall>(k, c') \<in> set (Map_set m (chat_id c) c). chat_id c' = k"
    using Cons.prems(2) by (auto dest!: Map_set_values)
  ultimately show ?case using Cons.IH [of "Map_set m (chat_id c) c"] by simp
qed

lemma store_inv_loadChats:
  assumes "store_inv s"
  shows "store_inv (snd (loadChats s now created))"
proof -
  have new: "\<And>cs. store_inv (s\<lparr>chats := Map_new (map (\<lambda>c. (chat_id c, c)) cs)\<rparr>)"
    using foldl_Map_set_inv [of "[]"] by (simp add: store_inv_def Map_new_def)
  have empty: "store_inv (s\<lparr>chats := []\<rparr>)" by (simp add: store_inv_def)
  have keep: "\<And>u p. store_inv u \<Longrightarrow> store_inv (u\<lparr>currentChatId := p\<rparr>)"
    by (simp add: store_inv_def)
  define s1 where "s1 = (case ai_chats (localStorage s) of
                  None \<Rightarrow> s
                | Some item \<Rightarrow>
                    if item = Malformed [] then s
                    else (case parse_saved item of
                            Inr m \<Rightarrow> s\<lparr>chats := m\<rparr>
                          | Inl e \<Rightarrow> s\<lparr>chats := []\<rparr>))"
  have "store_inv s1"
    using assms new empty
    by (auto simp: s1_def parse_saved_def split: option.splits chats_item.splits)
  then show ?thesis
    unfolding loadChats_def Let_def s1_def [symmetric]
    by (auto simp: keep store_inv_createNewChat)
qed

lemma store_inv_initializeApp: "store_inv (snd (initializeApp ls now created))"
  unfolding initializeApp_def
  by (rule store_inv_loadChats) (simp add: store_inv_def loadUserSettings_def constructor_def)

text \<open>
  C8, as stated, fails: \<^verbatim>\<open>addMessage\<close> does not touch the title. After create, append
  and append, a fresh controller lists the new conversation with its two messages and
  the sentinel title, and no conversation of the list has the title derived from the
  first message.
\<close>

theorem persistence_title_counterexample:
  "round_trip_1 = createNewChat example_app 77 78
   \<and> addMessage round_trip_1 ''user'' asked ''text'' = (None, round_trip_2)
   \<and> addMessage round_trip_2 ''assistant'' ''Paris.'' ''text'' = (None, round_trip_3)
   \<and> round_trip_reloaded = snd (initializeApp (localStorage round_trip_3) 90 91)
   \<and> chat_list round_trip_reloaded
       = [\<lparr>chat_id = ''chat_77'', title = ''New Chat'',
            messages = [\<lparr>role = ''user'', content = ''What is the capital of France?'',
                         type = ''text'', caption = None\<rparr>,
                        \<lparr>role = ''assistant'', content = ''Paris.'', type = ''text'',
                         caption = None\<rparr>],
            mode = ''chat'', createdAt = 78\<rparr>,
          other_chat, example_chat]
   \<and> truncateText ''What is the capital of France?'' 25 = ''What is the capital of Fr...''
   \<and> title other_chat = ''New Chat'' \<and> title example_chat = ''Greetings''"
  by code_simp

text \<open>
  C8, amended. From a store that satisfies the invariant: create a conversation and
  append a first and a second message (\<^verbatim>\<open>createNewChat\<close>, \<^verbatim>\<open>addMessage\<close> twice);
  each call saves. A fresh controller that loads what was saved has the same map, the
  new conversation is active, and its list contains the conversation with the two
  messages in their order and the title as it was saved, which is the sentinel. When
  \<^verbatim>\<open>updateChatTitleFromFirstMessage\<close> is called with the content of the first message
  after the second append, as \<^verbatim>\<open>sendMessage\<close> does for a successful exchange, the
  reloaded conversation has the two messages and the title truncated from the first
  message.
\<close>

theorem persistence_round_trip:
  assumes "store_inv s0"
    and "s1 = createNewChat s0 now created"
    and "addMessage s1 r1 c1 t1 = (e2, s2)"
    and "addMessage s2 r2 c2 t2 = (e3, s3)"
    and "fresh = snd (initializeApp (localStorage s3) now' created')"
    and "updateChatTitleFromFirstMessage s3 c1 = (e4, s4)"
    and "titled = snd (initializeApp (localStorage s4) now' created')"
  shows "e2 = None \<and> e3 = None
       \<and> \<lparr>chat_id = ''chat_'' @ decimal now, title = ''New Chat'',
           messages = [\<lparr>role = r1, content = c1, type = t1, caption = None\<rparr>,
                       \<lparr>role = r2, content = c2, type = t2, caption = None\<rparr>],
           mode = currentMode s0, createdAt = created\<rparr> \<in> set (chat_list fresh)
       \<and> chats fresh = chats s3
       \<and> currentChatId fresh = Some (''chat_'' @ decimal now)
       \<and> e4 = None
       \<and> \<lparr>chat_id = ''chat_'' @ decimal now, title = truncateText c1 25,
           messages = [\<lparr>role = r1, content = c1, type = t1, caption = None\<rparr>,
                       \<lparr>role = r2, content = c2, type = t2, caption = None\<rparr>],
           mode = currentMode s0, createdAt = created\<rparr> \<in> set (chat_list titled)
       \<and> chats titled = chats s4
       \<and> currentChatId titled = Some (''chat_'' @ decimal now)"
proof -
  define k where "k = ''chat_'' @ decimal now"
  define m1 where "m1 = \<lparr>role = r1, content = c1, type = t1, caption = None\<rparr>"
  define m2 where "m2 = \<lparr>role = r2, content = c2, type = t2, caption = None\<rparr>"
  define n0 where "n0 = \<lparr>chat_id = k, title = ''New Chat'', messages = [],
     mode = currentMode s0, createdAt = created\<rparr>"
  define n1 where "n1 = n0\<lparr>messages := [m1]\<rparr>"
  define n2 where "n2 = n0\<lparr>messages := [m1, m2]\<rparr>"
  define n3 where "n3 = n2\<lparr>title := truncateText c1 25\<rparr>"
  have reload: "chats (snd (initializeApp (localStorage s) now' created')) = chats s
      \<and> currentChatId (snd (initializeApp (localStorage s) now' created')) = Some k
      \<and> n \<in> set (chat_list (snd (initializeApp (localStorage s) now' created')))"
    if "store_inv s" "currentChat s = Some n" "currentChatId s = Some k"
      "ai_chats (localStorage s) = Some (Serialized (map snd (chats s)))"
      "current_chat_id (localStorage s) = Some k"
    for s n
  proof -
    from that(2,3) have h: "Map_has (chats s) k" "map_of (chats s) k = Some n"
      by (simp_all add: currentChat_def Map_has_def Map_get_def)
    have "k \<noteq> []" by (simp add: k_def)
    with that h(1) have f: "chats (snd (initializeApp (localStorage s) now' created')) = chats s"
        "currentChatId (snd (initializeApp (localStorage s) now' created')) = Some k"
      using fresh_load_of_saved [of s k "localStorage s" now' created'] by simp_all
    have "(k, n) \<in> set (chats s)" using h(2) by (rule map_of_SomeD)
    then have "n \<in> set (chat_list (snd (initializeApp (localStorage s) now' created')))"
      by (force simp: set_chat_list f)
    with f show ?thesis by simp
  qed
  have i1: "store_inv s1" using assms(1,2) by (simp add: store_inv_createNewChat)
  have c1: "currentChat s1 = Some n0"
    by (simp add: assms(2) currentChat_createNewChat n0_def k_def)
  have p1: "currentChatId s1 = Some k"
    by (simp add: assms(2) createNewChat_def Let_def k_def)
  have a1: "addMessage s1 r1 c1 t1 = (None, saveChats (put_current s1 n1))"
    using c1 by (simp add: addMessage_current n1_def n0_def m1_def)
  with assms(3) have s2: "e2 = None" "s2 = saveChats (put_current s1 n1)" by simp_all
  have i2: "store_inv s2" unfolding s2 using i1 c1 by (rule store_inv_put_current) (simp add: n1_def)
  have c2: "currentChat s2 = Some n1" using c1 by (simp add: s2 currentChat_put_current)
  have a2: "addMessage s2 r2 c2 t2 = (None, saveChats (put_current s2 n2))"
    using c2 by (simp add: addMessage_current n1_def n2_def n0_def m2_def)
  with assms(4) have s3: "e3 = None" "s3 = saveChats (put_current s2 n2)" by simp_all
  have i3: "store_inv s3" unfolding s3 using i2 c2 by (rule store_inv_put_current) (simp add: n1_def n2_def)
  have c3: "currentChat s3 = Some n2" using c2 by (simp add: s3 currentChat_put_current)
  have p3: "currentChatId s3 = Some k" by (simp add: s3 s2 p1)
  have l3: "ai_chats (localStorage s3) = Some (Serialized (map snd (chats s3)))"
    "current_chat_id (localStorage s3) = Some k"
    using p1 by (simp_all add: s3 s2 saveChats_def)
  have r3: "chats fresh = chats s3 \<and> currentChatId fresh = Some k \<and> n2 \<in> set (chat_list fresh)"
    unfolding assms(5) using i3 c3 p3 l3 by (rule reload)
  have "updateChatTitleFromFirstMessage s3 c1 = (None, saveChats (put_current s3 n3))"
    using c3 by (simp add: updateChatTitleFromFirstMessage_def n2_def n0_def n3_def)
  with assms(6) have s4: "e4 = None" "s4 = saveChats (put_current s3 n3)" by simp_all
  have i4: "store_inv s4" unfolding s4 using i3 c3 by (rule store_inv_put_current) (simp add: n3_def)
  have c4: "currentChat s4 = Some n3" using c3 by (simp add: s4 currentChat_put_current)
  have p4: "currentChatId s4 = Some k" by (simp add: s4 p3)
  have l4: "ai_chats (localStorage s4) = Some (Serialized (map snd (chats s4)))"
    "current_chat_id (localStorage s4) = Some k"
    using p3 by (simp_all add: s4 saveChats_def)
  have r4: "chats titled = chats s4 \<and> currentChatId titled = Some k \<and> n3 \<in> set (chat_list titled)"
    unfolding assms(7) using i4 c4 p4 l4 by (rule reload)
  have n: "n2 = \<lparr>chat_id = k, title = ''New Chat'', messages = [m1, m2],
           mode = currentMode s0, createdAt = created\<rparr>"
    "n3 = \<lparr>chat_id = k, title = truncateText c1 25, messages = [m1, m2],
           mode = currentMode s0, createdAt = created\<rparr>"
    by (simp_all add: n3_def n2_def n0_def)
  show ?thesis
    using s2(1) s3(1) s4(1) r3 r4 unfolding n k_def m1_def m2_def by simp
qed

theorem persistence_round_trip_witness:
  "store_inv example_app
   \<and> \<lparr>chat_id = ''chat_77'', title = ''New Chat'',
       messages = [\<lparr>role = ''user'', content = ''What is the capital of France?'',
                    type = ''text'', caption = None\<rparr>,
                   \<lparr>role = ''assistant'', content = ''Paris.'', type = ''text'', caption = None\<rparr>],
       mode = ''chat'', createdAt = 78\<rparr> \<in> set (chat_list round_trip_reloaded)
   \<and> chats round_trip_reloaded = chats round_trip_3
   \<and> currentChatId round_trip_reloaded = Some ''chat_77''
   \<and> \<lparr>chat_id = ''chat_77'', title = ''What is the capital of Fr...'',
       messages = [\<lparr>role = ''user'', content = ''What is the capital of France?'',
                    type = ''text'', caption = None\<rparr>,
                   \<lparr>role = ''assistant'', content = ''Paris.'', type = ''text'', caption = None\<rparr>],
       mode = ''chat'', createdAt = 78\<rparr> \<in> set (chat_list round_trip_fresh)
   \<and> chats round_trip_fresh = chats round_trip_4
   \<and> currentChatId round_trip_fresh = Some ''chat_77''"
proof -
  have h: "store_inv example_app" by code_simp
  have d: "decimal 77 = ''77''" "truncateText ''What is the capital of France?'' 25 = ''What is the capital of Fr...''"
    "currentMode example_app = ''chat''"
    by code_simp+
  have a: "addMessage round_trip_1 ''user'' asked ''text''
             = (fst (addMessage round_trip_1 ''user'' asked ''text''), round_trip_2)"
    "addMessage round_trip_2 ''assistant'' ''Paris.'' ''text''
             = (fst (addMessage round_trip_2 ''assistant'' ''Paris.'' ''text''), round_trip_3)"
    by (simp_all add: round_trip_2_def round_trip_3_def)
  have u: "updateChatTitleFromFirstMessage round_trip_3 asked
             = (fst (updateChatTitleFromFirstMessage round_trip_3 asked), round_trip_4)"
    by (simp add: round_trip_4_def)
  show ?thesis
    using h persistence_round_trip [OF h round_trip_1_def a round_trip_reloaded_def u round_trip_fresh_def]
    by (simp add: d asked_def)
qed


section \<open>The title of a conversation\<close>

text \<open>
  C3, as stated, fails: when the request fails, \<^verbatim>\<open>sendMessage\<close> stores the user
  message and the error message, so the count goes to exactly 2 while the title is the
  sentinel, and the title stays the sentinel; the \<^verbatim>\<open>catch\<close> block does not call
  \<^verbatim>\<open>updateChatTitleFromFirstMessage\<close>.
\<close>

theorem title_not_derived_counterexample:
  "currentChat started_app
     = Some \<lparr>chat_id = ''chat_77'', title = ''New Chat'', messages = [], mode = ''chat'',
             createdAt = 78\<rparr>
   \<and> sendMessage started_app ''Hello'' server_error always
     = (None, snd (sendMessage started_app ''Hello'' server_error always))
   \<and> currentChat (snd (sendMessage started_app ''Hello'' server_error always))
     = Some \<lparr>chat_id = ''chat_77'', title = ''New Chat'',
             messages = [\<lparr>role = ''user'', content = ''Hello'', type = ''text'', caption = None\<rparr>,
                         \<lparr>role = ''assistant'', content = ''Error: AI service error'',
                          type = ''text'', caption = None\<rparr>],
             mode = ''chat'', createdAt = 78\<rparr>"
  by code_simp

lemma apply_op_cases:
  "currentChat s = None \<Longrightarrow> apply_op s x = s"
  "currentChat s = Some c \<Longrightarrow>
     currentChat (apply_op s x) =
       Some (case x of
               AddMessage r str t \<Rightarrow>
                 c\<lparr>messages := messages c @ [\<lparr>role = r, content = str, type = t, caption = None\<rparr>]\<rparr>
             | AddImageMessage imageUrl cap r \<Rightarrow>
                 c\<lparr>messages := messages c
                     @ [\<lparr>role = r, content = imageUrl, type = ''image'', caption = Some cap\<rparr>]\<rparr>
             | UpdateChatTitleFromFirstMessage firstMessage \<Rightarrow>
                 if length (messages c) = 2 \<and> title c = ''New Chat''
                 then c\<lparr>title := truncateText firstMessage 25\<rparr> else c)"
  by (cases x; simp add: addMessage_def addImageMessage_def updateChatTitleFromFirstMessage_def
        currentChat_put_current)+

lemma title_change_step:
  assumes "active_title (apply_op s x) \<noteq> active_title s"
  shows "\<exists>firstMessage. x = UpdateChatTitleFromFirstMessage firstMessage
           \<and> active_count s = Some 2 \<and> active_title s = Some ''New Chat''
           \<and> active_title (apply_op s x) = Some (truncateText firstMessage 25)"
proof (cases "currentChat s")
  case None
  with assms show ?thesis by (simp add: apply_op_cases(1))
next
  case (Some c)
  note cc = apply_op_cases(2) [OF Some, of x]
  from assms Some cc show ?thesis
    by (cases x) (auto simp: active_title_def active_count_def simp del: apply_op.simps
        split: if_splits)
qed

lemma count_step:
  assumes "active_count s = Some n"
  shows "\<exists>n'\<ge>n. active_count (apply_op s x) = Some n'"
proof -
  from assms obtain c where c: "currentChat s = Some c" "n = length (messages c)"
    by (auto simp: active_count_def)
  note cc = apply_op_cases(2) [OF c(1), of x]
  from c cc show ?thesis
    by (cases x) (auto simp: active_count_def simp del: apply_op.simps)
qed

lemma title_fixed:
  "active_title s \<noteq> Some ''New Chat'' \<Longrightarrow> title_changes s xs = 0"
proof (induction xs arbitrary: s)
  case Nil
  then show ?case by simp
next
  case (Cons x xs)
  from Cons.prems have same: "active_title (apply_op s x) = active_title s"
    using title_change_step [of s x] by auto
  with Cons show ?case by simp
qed

lemma title_changes_le_1: "title_changes s xs \<le> 1"
proof (induction xs arbitrary: s)
  case Nil
  then show ?case by simp
next
  case (Cons x xs)
  show ?case
  proof (cases "active_title (apply_op s x) = active_title s")
    case True
    with Cons.IH [of "apply_op s x"] show ?thesis by simp
  next
    case False
    then obtain fm where "active_title s = Some ''New Chat''"
        "active_title (apply_op s x) = Some (truncateText fm 25)"
      using title_change_step [of s x] by auto
    with False have "active_title (apply_op s x) \<noteq> Some ''New Chat''" by auto
    then have "title_changes (apply_op s x) xs = 0" by (rule title_fixed)
    with False show ?thesis by simp
  qed
qed

lemma title_kept_beyond_two:
  "active_count s = Some n \<Longrightarrow> 2 < n \<Longrightarrow> active_title (foldl apply_op s xs) = active_title s"
proof (induction xs arbitrary: s n)
  case Nil
  then show ?case by simp
next
  case (Cons x xs)
  from Cons.prems have same: "active_title (apply_op s x) = active_title s"
    using title_change_step [of s x] by auto
  from Cons.prems(1) obtain n' where "n \<le> n'" "active_count (apply_op s x) = Some n'"
    using count_step by blast
  with Cons.IH [of "apply_op s x" n'] Cons.prems(2) same show ?case by simp
qed


lemma generateAIResponse_success:
  assumes "currentChat s = Some c" "ok r" "response_body r = Json data" "success data"
  shows "generateAIResponse s (Responded r) = (Inr (reply_content data), s)"
  using assms by (simp add: generateAIResponse_def)

lemma typeMessage_text:
  assumes "currentChat s = Some c"
  shows "raised (typeMessage s later str r ''text'') = None"
    and "after (typeMessage s later str r ''text'')
         = saveChats (put_current s
             (c\<lparr>messages := messages c @ [\<lparr>role = r, content = str, type = ''text'', caption = None\<rparr>]\<rparr>))"
  using assms by (simp_all add: typeMessage_def addMessage_current Let_def)

lemma sendMessage_success:
  assumes "\<not> isGenerating s" and "truthy (userApiKey s)" and "trim messageInput \<noteq> []"
    and "currentChat s = Some c" and "ok r" and "response_body r = Json data" and "success data"
  shows "fst (sendMessage s messageInput (Responded r) later) = None
       \<and> currentChat (snd (sendMessage s messageInput (Responded r) later))
           = Some (if messages c = [] \<and> title c = ''New Chat''
                   then c\<lparr>messages :=
                            [\<lparr>role = ''user'', content = trim messageInput, type = ''text'', caption = None\<rparr>,
                             \<lparr>role = ''assistant'', content = reply_content data, type = ''text'', caption = None\<rparr>],
                          title := truncateText (trim messageInput) 25\<rparr>
                   else c\<lparr>messages := messages c @
                            [\<lparr>role = ''user'', content = trim messageInput, type = ''text'', caption = None\<rparr>,
                             \<lparr>role = ''assistant'', content = reply_content data, type = ''text'', caption = None\<rparr>]\<rparr>)"
proof -
  define u where "u = \<lparr>role = ''user'', content = trim messageInput, type = ''text'', caption = None\<rparr>"
  define a where "a = \<lparr>role = ''assistant'', content = reply_content data, type = ''text'', caption = None\<rparr>"
  define c1 where "c1 = c\<lparr>messages := messages c @ [u]\<rparr>"
  define c2 where "c2 = c1\<lparr>messages := messages c1 @ [a]\<rparr>"
  define s1 where "s1 = saveChats (put_current s c1)"
  define s2 where "s2 = showTypingIndicator s1"
  define s3 where "s3 = removeTypingIndicator s2"
  define s4 where "s4 = saveChats (put_current s3 c2)"
  have a1: "addMessage s ''user'' (trim messageInput) ''text'' = (None, s1)"
    using assms(4) by (simp add: addMessage_current s1_def c1_def u_def)
  have k2: "currentChat s2 = Some c1"
    using assms(4) by (simp add: s2_def s1_def currentChat_put_current)
  have g: "generateAIResponse s2 (Responded r) = (Inr (reply_content data), s2)"
    using k2 assms(5-7) by (rule generateAIResponse_success)
  have k3: "currentChat s3 = Some c1"
    using k2 by (simp add: s3_def)
  have ty: "raised (typeMessage s3 later (reply_content data) ''assistant'' ''text'') = None"
    "after (typeMessage s3 later (reply_content data) ''assistant'' ''text'') = s4"
    using typeMessage_text [OF k3] by (simp_all add: s4_def c2_def a_def)
  have k4: "currentChat s4 = Some c2"
    using k3 by (simp add: s4_def currentChat_put_current)
  have t: "try_block s2 (trim messageInput) (Responded r) later
             = updateChatTitleFromFirstMessage s4 (trim messageInput)"
    by (simp add: try_block_def g Let_def ty flip: s3_def)
  have up: "fst (updateChatTitleFromFirstMessage s4 (trim messageInput)) = None"
    "currentChat (snd (updateChatTitleFromFirstMessage s4 (trim messageInput)))
      = Some (if length (messages c2) = 2 \<and> title c2 = ''New Chat''
              then c2\<lparr>title := truncateText (trim messageInput) 25\<rparr> else c2)"
    using k4 by (simp_all add: updateChatTitleFromFirstMessage_def currentChat_put_current)
  have sm: "sendMessage s messageInput (Responded r) later
              = updateChatTitleFromFirstMessage s4 (trim messageInput)"
    unfolding sendMessage_unfold [OF assms(1-3)] a1 prod.case option.case s2_def [symmetric] t
    using up(1) by (cases "updateChatTitleFromFirstMessage s4 (trim messageInput)") simp
  show ?thesis
    unfolding sm using up by (auto simp: c2_def c1_def u_def a_def)
qed


text \<open>
  C3, amended. Over every sequence of \<^verbatim>\<open>addMessage\<close>, \<^verbatim>\<open>addImageMessage\<close> and
  \<^verbatim>\<open>updateChatTitleFromFirstMessage\<close> calls the title of the active conversation
  changes at most once. A step changes it only if it is the title call, made while the
  conversation has exactly 2 messages and the sentinel title, and the new title is the
  argument truncated to 25 code units, with three dots when it was longer. Once the
  conversation has more than 2 messages no such call changes the title. In a successful
  \<^verbatim>\<open>sendMessage\<close> on an empty conversation with the sentinel title, the argument is
  the content of the first user message.
\<close>

theorem title_rewritten_at_most_once:
  "title_changes s xs \<le> 1
   \<and> (active_title (apply_op s1 x) \<noteq> active_title s1 \<longrightarrow>
        (\<exists>firstMessage. x = UpdateChatTitleFromFirstMessage firstMessage
           \<and> active_count s1 = Some 2 \<and> active_title s1 = Some ''New Chat''
           \<and> active_title (apply_op s1 x) = Some (truncateText firstMessage 25)))
   \<and> (active_count s2 = Some n \<and> 2 < n \<longrightarrow>
        active_title (foldl apply_op s2 ys) = active_title s2)
   \<and> (\<not> isGenerating s3 \<and> truthy (userApiKey s3) \<and> trim messageInput \<noteq> []
        \<and> currentChat s3 = Some c \<and> messages c = [] \<and> title c = ''New Chat''
        \<and> ok r \<and> response_body r = Json data \<and> success data \<longrightarrow>
        currentChat (snd (sendMessage s3 messageInput (Responded r) later))
          = Some (c\<lparr>messages :=
                     [\<lparr>role = ''user'', content = trim messageInput, type = ''text'', caption = None\<rparr>,
                      \<lparr>role = ''assistant'', content = reply_content data, type = ''text'',
                       caption = None\<rparr>],
                   title := truncateText (trim messageInput) 25\<rparr>))"
  using title_changes_le_1 [of s xs] title_change_step [of s1 x]
    title_kept_beyond_two [of s2 n ys] sendMessage_success [of s3 messageInput c r data later]
  by auto

theorem title_rewritten_at_most_once_witness:
  "title_changes started_app exchange \<le> 1
   \<and> active_title (apply_op two_stored (UpdateChatTitleFromFirstMessage ''Hello''))
       \<noteq> active_title two_stored
   \<and> active_count two_stored = Some 2 \<and> active_title two_stored = Some ''New Chat''
   \<and> active_title (apply_op two_stored (UpdateChatTitleFromFirstMessage ''Hello''))
       = Some (truncateText ''Hello'' 25)
   \<and> active_count five_stored = Some 4
   \<and> active_title (foldl apply_op five_stored [UpdateChatTitleFromFirstMessage ''More''])
       = active_title five_stored
   \<and> currentChat (snd (sendMessage started_app ''Hello'' (Responded greeting_response) always))
       = Some ((bootstrap_chat 77 78)\<lparr>messages :=
                 [\<lparr>role = ''user'', content = trim ''Hello'', type = ''text'', caption = None\<rparr>,
                  \<lparr>role = ''assistant'', content = ''Hi, how can I help?'', type = ''text'',
                   caption = None\<rparr>],
               title := truncateText (trim ''Hello'') 25\<rparr>)"
proof -
  define d where "d = \<lparr>success = True, reply_content = ''Hi, how can I help?'', reply_error = None\<rparr>"
  note T = title_rewritten_at_most_once [of started_app exchange two_stored
        "UpdateChatTitleFromFirstMessage ''Hello''" five_stored 4
        "[UpdateChatTitleFromFirstMessage ''More'']"
        started_app "''Hello''" "bootstrap_chat 77 78" greeting_response d always]
  have changed: "active_title (apply_op two_stored (UpdateChatTitleFromFirstMessage ''Hello''))
       \<noteq> active_title two_stored"
    by code_simp
  have beyond: "active_count five_stored = Some 4 \<and> (2::nat) < 4"
    by code_simp
  have sent: "\<not> isGenerating started_app \<and> truthy (userApiKey started_app) \<and> trim ''Hello'' \<noteq> []
        \<and> currentChat started_app = Some (bootstrap_chat 77 78)
        \<and> messages (bootstrap_chat 77 78) = [] \<and> title (bootstrap_chat 77 78) = ''New Chat''
        \<and> ok greeting_response \<and> response_body greeting_response = Json d \<and> success d"
    unfolding d_def by code_simp
  have r: "reply_content d = ''Hi, how can I help?''" by (simp add: d_def)
  from T have "title_changes started_app exchange \<le> 1" by (rule conjunct1)
  moreover from T changed have "\<exists>firstMessage.
      UpdateChatTitleFromFirstMessage ''Hello'' = UpdateChatTitleFromFirstMessage firstMessage
      \<and> active_count two_stored = Some 2 \<and> active_title two_stored = Some ''New Chat''
      \<and> active_title (apply_op two_stored (UpdateChatTitleFromFirstMessage ''Hello''))
          = Some (truncateText firstMessage 25)"
    by blast
  then have "active_count two_stored = Some 2 \<and> active_title two_stored = Some ''New Chat''
      \<and> active_title (apply_op two_stored (UpdateChatTitleFromFirstMessage ''Hello''))
          = Some (truncateText ''Hello'' 25)"
    by auto
  moreover from T beyond have "active_title (foldl apply_op five_stored [UpdateChatTitleFromFirstMessage ''More''])
       = active_title five_stored"
    by blast
  moreover from T sent have "currentChat (snd (sendMessage started_app ''Hello'' (Responded greeting_response) always))
       = Some ((bootstrap_chat 77 78)\<lparr>messages :=
                 [\<lparr>role = ''user'', content = trim ''Hello'', type = ''text'', caption = None\<rparr>,
                  \<lparr>role = ''assistant'', content = reply_content d, type = ''text'',
                   caption = None\<rparr>],
               title := truncateText (trim ''Hello'') 25\<rparr>)"
    by blast
  ultimately show ?thesis
    using changed beyond unfolding r by blast
qed

section \<open>The renderer on plain text\<close>



















lemma escapeHtml_escaped: "CHR ''<'' \<notin> set (escapeHtml t) \<and> CHR ''>'' \<notin> set (escapeHtml t)"
  by (induction t) (auto simp: escapeHtml_def escape_unit_def)














section \<open>The renderer on code\<close>

text \<open>
  The inline code rule runs before the fenced block rule. It takes the last backtick of
  an opening fence as the start of an inline code span whenever a backtick follows
  later, so in its output every run of backticks is settled, and on a settled text the
  fenced block rule has no match.
\<close>

lemma replace_global_id_suffix:
  "(\<And>p u. suffix u s \<Longrightarrow> u \<noteq> [] \<Longrightarrow> m p u = None) \<Longrightarrow> replace_global m prev s = s"
proof (induction s arbitrary: prev)
  case Nil
  then show ?case by simp
next
  case (Cons c cs)
  have "m prev (c # cs) = None" by (rule Cons.prems) simp_all
  moreover have "replace_global m (Some c) cs = cs"
    by (rule Cons.IH) (simp add: Cons.prems suffix_Cons)
  ultimately show ?case by simp
qed

lemma settled_no_code_block:
  assumes "settled u"
  shows "code_block_rule p u = None"
proof (rule ccontr)
  assume "code_block_rule p u \<noteq> None"
  then obtain w body k where pre: "u = backtick # backtick # backtick # w"
    and rest: "dropWhile is_word_char w = CHR 0x0A # body" and fence: "until_fence body = Some k"
    by (auto simp: code_block_rule_def fence_def backtick_def prefix_def Let_def
        split: if_splits list.splits option.splits)
  have nw: "\<not> is_word_char backtick" "backtick \<noteq> CHR 0x0A" "\<not> is_word_char (CHR ''<'')"
    by (simp_all add: is_word_char_def backtick_def)
  have w: "w \<noteq> []" "hd w \<noteq> backtick" "hd w \<noteq> CHR ''<''"
    using rest nw by (cases w; auto split: if_splits)+
  have "backtick \<in> set body"
    using fence by (induction body arbitrary: k) (auto simp: fence_def backtick_def prefix_def split: if_splits)
  then have "backtick \<in> set (dropWhile is_word_char w)" by (simp add: rest)
  then have "backtick \<in> set w" using set_dropWhileD by fastforce
  moreover have "dropWhile (\<lambda>x. x = backtick) u = w"
    using w by (cases w) (auto simp: pre)
  ultimately show False
    using assms w by (auto simp: settled_def pre)
qed

lemma inline_code_no_backtick:
  "backtick \<notin> set s \<Longrightarrow> replace_global inline_code_rule prev s = s"
proof (rule replace_global_id_suffix)
  fix p u assume "backtick \<notin> set s" "suffix u s"
  then have "backtick \<notin> set u" by (auto simp: suffix_def)
  then show "inline_code_rule p u = None"
    by (cases u) (auto simp: inline_code_rule_def delimited_def backtick_def)
qed

lemma inline_code_head:
  "replace_global inline_code_rule prev (backtick # cs) \<noteq> []
   \<and> hd (replace_global inline_code_rule prev (backtick # cs)) \<in> {backtick, CHR ''<''}"
  by (auto simp: inline_code_rule_def split: option.splits)


lemma delimited_Some:
  assumes "delimited d s = Some (run, n)"
  shows "d \<notin> set run \<and> n = length run + 2 \<and> hd s = d \<and> s \<noteq> []"
proof -
  from assms obtain t where s: "s = d # t" and run: "run = takeWhile (\<lambda>x. x \<noteq> d) t"
      and n: "n = length run + 2"
    by (cases s) (auto simp: delimited_def Let_def split: if_splits)
  have "d \<notin> set (takeWhile (\<lambda>x. x \<noteq> d) t)"
    by (auto dest: set_takeWhileD)
  with s run n show ?thesis by simp
qed

lemma delimited_None_cases:
  assumes "delimited d (d # cs) = None"
  shows "cs = [] \<or> hd cs = d \<or> d \<notin> set cs"
proof (cases cs)
  case Nil
  then show ?thesis by simp
next
  case (Cons x xs)
  show ?thesis
  proof (cases "x = d")
    case True
    with Cons show ?thesis by simp
  next
    case False
    with assms Cons have "dropWhile (\<lambda>x. x \<noteq> d) cs = []"
      by (auto simp: delimited_def Let_def split: if_splits)
    then have "d \<notin> set cs" by (metis (mono_tags, lifting) dropWhile_eq_Nil_conv)
    then show ?thesis by simp
  qed
qed

lemma dropWhile_head: "u \<noteq> [] \<Longrightarrow> P (hd u) \<Longrightarrow> dropWhile P u \<noteq> u"
proof (cases u)
  case Nil
  assume "u \<noteq> []"
  with Nil show ?thesis by simp
next
  case (Cons x xs)
  assume "P (hd u)"
  with Cons have "length (dropWhile P u) = length (dropWhile P xs)" by simp
  also have "\<dots> \<le> length xs" by (rule length_dropWhile_le)
  also have "\<dots> < length u" by (simp add: Cons)
  finally show ?thesis by auto
qed

lemma settled_run:
  assumes "settled u" and "u \<noteq> []" and "hd u = backtick"
  shows "settled (backtick # u)"
proof -
  have "dropWhile (\<lambda>x. x = backtick) u \<noteq> u"
    using assms(2,3) by (intro dropWhile_head) simp_all
  with assms(1) show ?thesis
    by (auto simp: settled_def Let_def)
qed

lemma settled_head: "u = [] \<or> hd u \<noteq> backtick \<Longrightarrow> settled u"
  by (cases u) (auto simp: settled_def)

lemma inline_code_settled:
  "suffix u (replace_global inline_code_rule prev s) \<Longrightarrow> settled u"
proof (induction inline_code_rule prev s arbitrary: u rule: replace_global.induct)
  case (1 prev)
  then show ?case by (simp add: settled_def)
next
  case (2 prev c cs)
  show ?case
  proof (cases "delimited backtick (c # cs)")
    case None
    then have m: "inline_code_rule prev (c # cs) = None"
      by (simp add: inline_code_rule_def backtick_def)
    define out where "out = replace_global inline_code_rule (Some c) cs"
    have out: "replace_global inline_code_rule prev (c # cs) = c # out"
      by (simp add: m out_def)
    have ih: "\<And>v. suffix v out \<Longrightarrow> settled v"
      unfolding out_def using "2.hyps"(1) [OF m] .
    from "2.prems" out consider (head) "u = c # out" | (tail) "suffix u out"
      by (auto simp: suffix_Cons)
    then show ?thesis
    proof cases
      case tail
      then show ?thesis by (rule ih)
    next
      case head
      show ?thesis
      proof (cases "c = backtick")
        case False
        with head show ?thesis by (simp add: settled_head)
      next
        case True
        with None have "cs = [] \<or> hd cs = backtick \<or> backtick \<notin> set cs"
          by (simp add: delimited_None_cases)
        then consider (e) "cs = []" | (d) cs' where "cs = backtick # cs'"
          | (n) "cs \<noteq> []" "hd cs \<noteq> backtick" "backtick \<notin> set cs"
          by (cases cs) auto
        then show ?thesis
        proof cases
          case e
          then show ?thesis by (simp add: head True out_def settled_def)
        next
          case d
          then have h: "out \<noteq> []" "hd out \<in> {backtick, CHR ''<''}"
            using inline_code_head [of "Some c" cs'] by (simp_all add: out_def)
          have so: "settled out" by (rule ih) simp
          show ?thesis
          proof (cases "hd out = backtick")
            case True
            with h(1) so show ?thesis
              by (simp add: head \<open>c = backtick\<close> settled_run)
          next
            case False
            with h have "hd out = CHR ''<''" by simp
            with h(1) False show ?thesis
              by (cases out) (auto simp: settled_def head \<open>c = backtick\<close>)
          qed
        next
          case n
          then have "out = cs" by (simp add: out_def inline_code_no_backtick)
          with n show ?thesis
            by (cases cs) (auto simp: settled_def head True)
        qed
      qed
    qed
  next
    case (Some a)
    obtain run n where a: "a = (run, n)" by (cases a)
    with Some have d: "backtick \<notin> set run" "n = length run + 2"
      using delimited_Some by fastforce+
    define r where \<open>r = ''<code class="inline-code">'' @ run @ ''</code>''\<close>
    have m: "inline_code_rule prev (c # cs) = Some (r, n)"
      using Some by (simp add: inline_code_rule_def backtick_def a r_def)
    define out where
      "out = replace_global inline_code_rule (Some (last (take n (c # cs)))) (drop n (c # cs))"
    have n0: "n \<noteq> 0" using d(2) by simp
    have out: "replace_global inline_code_rule prev (c # cs) = r @ out"
      using n0 by (simp add: m out_def)
    have ih: "\<And>v. suffix v out \<Longrightarrow> settled v"
      unfolding out_def using "2.hyps"(3) [OF m refl n0] .
    have nr: "backtick \<notin> set r"
      using d(1) by (auto simp: r_def backtick_def)
    from "2.prems" have "suffix u (r @ out)" by (simp only: out)
    then have "suffix u out \<or> (\<exists>r'. suffix r' r \<and> u = r' @ out)"
      by (auto simp: suffix_append)
    then consider (tail) "suffix u out" | (inside) r' where "suffix r' r" "r' \<noteq> []" "u = r' @ out"
      by (cases "suffix u out") auto
    then show ?thesis
    proof cases
      case tail
      then show ?thesis by (rule ih)
    next
      case inside
      then have "hd u \<in> set r" by (cases r') (auto simp: suffix_def)
      with nr have "hd u \<noteq> backtick" by auto
      then show ?thesis by (simp add: settled_head)
    qed
  qed
qed

text \<open>
  The fenced block rule changes nothing in the output of the inline rules, whatever the
  input is: \<^verbatim>\<open>formatMessage\<close> never produces the code-block markup and never calls
  \<^verbatim>\<open>escapeHtml\<close>.
\<close>

theorem code_block_rule_never_fires:
  "replace_all code_block_rule (inline_rules str) = inline_rules str"
  unfolding inline_rules_def replace_all_def
  by (rule replace_global_id_suffix) (rule settled_no_code_block, rule inline_code_settled)


lemma formatMessage_without_code_blocks: "formatMessage str = block_rules (inline_rules str)"
proof (cases "str = []")
  case True
  then show ?thesis
    by (simp add: formatMessage_def inline_rules_def block_rules_def replace_all_def)
next
  case False
  then show ?thesis
    by (simp add: formatMessage_def code_block_rule_never_fires)
qed

text \<open>
  C1 at its failing inputs. The content of an inline code span is inserted as it is, so
  markup in it reaches the output; the content of a fenced block is taken by the inline
  code rule and inserted as it is, too. The last equation is what escaping would give.
\<close>

theorem code_literals_not_escaped:
  \<open>formatMessage ''`<img src=x onerror=alert(1)>`''
     = ''<code class="inline-code"><img src=x onerror=alert(1)></code>''
   \<and> formatMessage ''```html\<newline><script>alert(1)</script>\<newline>```''
     = ''``<code class="inline-code">html<br><script>alert(1)</script><br></code>``''
   \<and> escapeHtml ''<img src=x onerror=alert(1)>'' = ''&lt;img src=x onerror=alert(1)&gt;''\<close>
  by code_simp

text \<open>
  C2 at its failing input. The italic rule rewrites the text inside the fence and the
  inline code rule consumes the fence, before the fenced block rule is tried; the second
  equation is what the fenced block rule gives on the same text when it runs first.
\<close>

theorem inline_rules_run_inside_fence:
  \<open>formatMessage ''```js\<newline>let a_b_c = 1;\<newline>```''
     = ''``<code class="inline-code">js<br>let a<em class="italic-text">b</em>c = 1;<br></code>``''
   \<and> replace_all code_block_rule ''```js\<newline>let a_b_c = 1;\<newline>```''
     = code_block_template ''js'' ''let a_b_c = 1;''\<close>
  by code_simp

end
